theory Spec2Isabelle
  imports Complex_Main "HOL-Library.Option_ord" "HOL-Library.Multiset"
    "HOL-Library.Char_ord" "HOL-Library.List_Lexorder" "HOL-Library.Log_Nat"
begin

section \<open>JavaScript values used by the handlers\<close>

text \<open>
  A string-valued expression may be \<open>undefined\<close> at run time; this is \<open>None\<close>.  The
  conditionals of the source test truthiness: \<open>undefined\<close> and the empty string are falsy.
\<close>

definition truthy :: "string option \<Rightarrow> bool" where
  "truthy v = (case v of None \<Rightarrow> False | Some s \<Rightarrow> s \<noteq> [])"

text \<open>
  The lookup tables of the webhook route are object literals indexed with \<open>table[key]\<close>.
  Such a read finds the literal's own entries first and then walks to \<open>Object.prototype\<close>,
  so a key that names a member of \<open>Object.prototype\<close> yields that member (a function, or
  the prototype object itself for \<open>__proto__\<close>) and not \<open>undefined\<close>.  An inherited member
  is carried with the text a template literal renders it to.
\<close>

datatype 'a js_prop = Own 'a | Inherited string | Undefined

definition object_prototype_keys :: "string list" where
  "object_prototype_keys =
     [''constructor'', ''__defineGetter__'', ''__defineSetter__'', ''hasOwnProperty'',
      ''__lookupGetter__'', ''__lookupSetter__'', ''isPrototypeOf'',
      ''propertyIsEnumerable'', ''toString'', ''valueOf'', ''__proto__'',
      ''toLocaleString'']"

definition inherited_text :: "string \<Rightarrow> string" where
  "inherited_text k =
     (if k = ''__proto__'' then ''[object Object]''
      else if k = ''constructor'' then ''function Object() { [native code] }''
      else ''function '' @ k @ ''() { [native code] }'')"

definition obj_get :: "(string \<times> 'a) list \<Rightarrow> string \<Rightarrow> 'a js_prop" where
  "obj_get obj k =
     (case map_of obj k of
        Some v \<Rightarrow> Own v
      | None \<Rightarrow> if k \<in> set object_prototype_keys then Inherited (inherited_text k)
                else Undefined)"

text \<open>Truthiness and string rendering of a looked-up path (a string when it is an own entry).\<close>

definition prop_truthy :: "string js_prop \<Rightarrow> bool" where
  "prop_truthy p = (case p of Own s \<Rightarrow> s \<noteq> [] | Inherited _ \<Rightarrow> True | Undefined \<Rightarrow> False)"

definition prop_text :: "string js_prop \<Rightarrow> string" where
  "prop_text p = (case p of Own s \<Rightarrow> s | Inherited t \<Rightarrow> t | Undefined \<Rightarrow> ''undefined'')"


section \<open>The revalidation webhook: app/api/revalidate/route.ts\<close>

subsection \<open>Payload, parse result, response, cache\<close>

text \<open>
  \<open>WebhookPayload\<close> is \<open>{ _type: string, _id?: string, slug?: { current?: string } }\<close>.
  The handler tests \<open>body?._type\<close> itself, so in the model the field may be absent too.
\<close>

record slug_field =
  current :: "string option"

record webhook_payload =
  payload_type :: "string option"
  payload_id :: "string option"
  payload_slug :: "slug_field option"

text \<open>
  \<open>parseBody\<close> comes from the \<open>next-sanity/webhook\<close> package.  It either throws (for
  instance on a body that is not JSON) or returns \<open>{ isValidSignature, body }\<close>, where
  \<open>isValidSignature\<close> is \<open>true\<close>, \<open>false\<close> or \<open>null\<close> and \<open>body\<close> may be \<open>null\<close>.  The handler
  takes it as a parameter: request, secret and the wait flag in, outcome out.
\<close>

datatype thrown = ErrorObject string | NonError

datatype parse_result =
    ParseThrows thrown
  | Parsed "bool option" "webhook_payload option"

text \<open>
  The cache of the hosting framework is seen through the calls made on it:
  \<open>revalidateTag(tag)\<close> and \<open>revalidatePath(path, type?)\<close>, in call order.  Both
  belong to the framework; they are taken to return normally.
\<close>

datatype invalidation =
    RevalidateTag string
  | RevalidatePath string "string option"

type_synonym cache_log = "invalidation list"

text \<open>
  The JSON bodies of the responses.  The success body also carries \<open>revalidated: true\<close> and
  \<open>now: Date.now()\<close>; the clock is not modelled.
\<close>

datatype response_body =
    Message string
  | InvalidSignature "bool option"
  | ProcessingError string
  | Revalidated string "string list" "string list"

record response =
  status :: nat
  body :: response_body

definition response_tags :: "response \<Rightarrow> string list option" where
  "response_tags r = (case body r of Revalidated _ ts _ \<Rightarrow> Some ts | _ \<Rightarrow> None)"

definition response_paths :: "response \<Rightarrow> string list option" where
  "response_paths r = (case body r of Revalidated _ _ ps \<Rightarrow> Some ps | _ \<Rightarrow> None)"

subsection \<open>The tables\<close>

definition documentTypeToTags :: "(string \<times> string list) list" where
  "documentTypeToTags =
     [(''homepage'', [''homepage'']),
      (''aboutPage'', [''aboutPage'']),
      (''contactPage'', [''contactPage'']),
      (''siteSettings'', [''siteSettings'']),
      (''navigation'', [''navigation'']),
      (''blogPost'', [''blogPost'']),
      (''project'', [''project'']),
      (''popupContent'', [''popupContent''])]"

definition documentTypeToPath :: "(string \<times> string) list" where
  "documentTypeToPath = [(''blogPost'', ''/blog''), (''project'', ''/projects'')]"

definition singletonPaths :: "(string \<times> string) list" where
  "singletonPaths =
     [(''homepage'', ''/''), (''aboutPage'', ''/about''), (''contactPage'', ''/contact'')]"

subsection \<open>The handler\<close>

text \<open>
  The running state of the success path: the two arrays \<open>revalidatedTags\<close> and
  \<open>revalidatedPaths\<close>, and the cache calls made so far.
\<close>

record run_state =
  revalidatedTags :: "string list"
  revalidatedPaths :: "string list"
  calls :: cache_log

definition tag_step :: "string \<Rightarrow> run_state \<Rightarrow> run_state" where
  "tag_step tag st =
     st\<lparr>revalidatedTags := revalidatedTags st @ [tag],
        calls := calls st @ [RevalidateTag tag]\<rparr>"

text \<open>\<open>revalidatePath(path, kind)\<close> followed by \<open>revalidatedPaths.push(label)\<close>.\<close>

definition path_step :: "string \<Rightarrow> string option \<Rightarrow> string \<Rightarrow> run_state \<Rightarrow> run_state" where
  "path_step path kind label st =
     st\<lparr>revalidatedPaths := revalidatedPaths st @ [label],
        calls := calls st @ [RevalidatePath path kind]\<rparr>"

text \<open>The \<open>for (const tag of tags)\<close> loop.\<close>

fun tag_loop :: "string list \<Rightarrow> run_state \<Rightarrow> run_state" where
  "tag_loop [] st = st"
| "tag_loop (tag # rest) st = tag_loop rest (tag_step tag st)"

text \<open>
  Lines 88 to 98.  An own entry is iterated; \<open>undefined\<close> takes the fallback branch; an
  inherited member is truthy and not iterable, so \<open>for ... of\<close> throws a \<open>TypeError\<close>.
\<close>

definition revalidate_by_type :: "string \<Rightarrow> run_state \<Rightarrow> thrown + run_state" where
  "revalidate_by_type t st =
     (case obj_get documentTypeToTags t of
        Own tags \<Rightarrow> Inr (tag_loop tags st)
      | Inherited _ \<Rightarrow> Inl (ErrorObject ''tags is not iterable'')
      | Undefined \<Rightarrow> Inr (tag_step t st))"

definition slug_current :: "webhook_payload \<Rightarrow> string option" where
  "slug_current b = (case payload_slug b of None \<Rightarrow> None | Some s \<Rightarrow> current s)"

text \<open>Lines 100 to 105: the detail page of a document that carries a slug.\<close>

definition revalidate_detail :: "string \<Rightarrow> webhook_payload \<Rightarrow> run_state \<Rightarrow> run_state" where
  "revalidate_detail t b st =
     (case slug_current b of
        None \<Rightarrow> st
      | Some cur \<Rightarrow>
          if cur \<noteq> [] \<and> prop_truthy (obj_get documentTypeToPath t)
          then (let path = prop_text (obj_get documentTypeToPath t) @ ''/'' @ cur
                in path_step path None path st)
          else st)"

text \<open>Lines 107 to 117: the fixed path of a singleton page.\<close>

definition revalidate_singleton :: "string \<Rightarrow> run_state \<Rightarrow> run_state" where
  "revalidate_singleton t st =
     (if prop_truthy (obj_get singletonPaths t)
      then (let p = prop_text (obj_get singletonPaths t) in path_step p None p st)
      else st)"

text \<open>Lines 119 to 123: the shared layout.\<close>

definition revalidate_layout :: "string \<Rightarrow> run_state \<Rightarrow> run_state" where
  "revalidate_layout t st =
     (if t = ''siteSettings'' \<or> t = ''navigation''
      then path_step ''/'' (Some ''layout'') ''/ (layout)'' st
      else st)"

text \<open>Lines 125 to 140: listing pages and the homepage.\<close>

definition revalidate_listings :: "string \<Rightarrow> run_state \<Rightarrow> run_state" where
  "revalidate_listings t st =
     (let st1 = (if t = ''blogPost''
                 then path_step ''/'' None ''/'' (path_step ''/blog'' None ''/blog'' st)
                 else st)
      in if t = ''project''
         then path_step ''/'' None ''/'' (path_step ''/projects'' None ''/projects'' st1)
         else st1)"

text \<open>
  Lines 83 to 155: the payload is accepted and its type is \<open>t\<close>.  The result is the
  response returned, or the value thrown, together with the cache calls made so far.
\<close>

definition revalidate_document ::
  "string \<Rightarrow> webhook_payload \<Rightarrow> cache_log \<Rightarrow> (thrown + response) \<times> cache_log" where
  "revalidate_document t payload cache =
     (case revalidate_by_type t
             \<lparr>revalidatedTags = [], revalidatedPaths = [], calls = cache\<rparr> of
        Inl e \<Rightarrow> (Inl e, cache)
      | Inr st1 \<Rightarrow>
          (let st2 = revalidate_listings t
                       (revalidate_layout t
                         (revalidate_singleton t
                           (revalidate_detail t payload st1)))
           in (Inr \<lparr>status = 200,
                     body = Revalidated t (revalidatedTags st2) (revalidatedPaths st2)\<rparr>,
               calls st2)))"

text \<open>Lines 53 to 81: what the handler does with the outcome of \<open>parseBody\<close>.\<close>

definition handle_parsed ::
  "parse_result \<Rightarrow> cache_log \<Rightarrow> (thrown + response) \<times> cache_log" where
  "handle_parsed outcome cache =
     (case outcome of
        ParseThrows e \<Rightarrow> (Inl e, cache)
      | Parsed isValidSignature b \<Rightarrow>
          if isValidSignature \<noteq> Some True then
            (Inr \<lparr>status = 401, body = InvalidSignature isValidSignature\<rparr>, cache)
          else
            (case b of
               None \<Rightarrow>
                 (Inr \<lparr>status = 400,
                       body = Message ''Bad Request: missing _type in payload''\<rparr>,
                  cache)
             | Some payload \<Rightarrow>
                 (case payload_type payload of
                    None \<Rightarrow>
                      (Inr \<lparr>status = 400,
                            body = Message ''Bad Request: missing _type in payload''\<rparr>,
                       cache)
                  | Some t \<Rightarrow>
                      if t = [] then
                        (Inr \<lparr>status = 400,
                              body = Message ''Bad Request: missing _type in payload''\<rparr>,
                         cache)
                      else revalidate_document t payload cache)))"

text \<open>
  The body of the \<open>try\<close> block, lines 36 to 155.  \<open>process.env.SANITY_REVALIDATE_SECRET\<close>
  is \<open>secret\<close>; an unset or empty variable is falsy.
\<close>

definition try_block ::
  "('req \<Rightarrow> string \<Rightarrow> bool \<Rightarrow> parse_result) \<Rightarrow> string option \<Rightarrow> 'req \<Rightarrow> cache_log
     \<Rightarrow> (thrown + response) \<times> cache_log" where
  "try_block parseBody secret req cache =
     (case secret of
        None \<Rightarrow>
          (Inr \<lparr>status = 500,
                body = Message ''Missing environment variable SANITY_REVALIDATE_SECRET''\<rparr>,
           cache)
      | Some sec \<Rightarrow>
          if sec = [] then
            (Inr \<lparr>status = 500,
                  body = Message ''Missing environment variable SANITY_REVALIDATE_SECRET''\<rparr>,
             cache)
          else handle_parsed (parseBody req sec True) cache)"

text \<open>The \<open>catch\<close> clause turns anything thrown into a 500.\<close>

definition POST ::
  "('req \<Rightarrow> string \<Rightarrow> bool \<Rightarrow> parse_result) \<Rightarrow> string option \<Rightarrow> 'req \<Rightarrow> cache_log
     \<Rightarrow> response \<times> cache_log" where
  "POST parseBody secret req cache =
     (case try_block parseBody secret req cache of
        (Inr r, cache') \<Rightarrow> (r, cache')
      | (Inl err, cache') \<Rightarrow>
          (\<lparr>status = 500,
            body = ProcessingError
                     (case err of ErrorObject m \<Rightarrow> m | NonError \<Rightarrow> ''Unknown error'')\<rparr>,
           cache'))"

text \<open>\<open>body?._type\<close>: the document type carried by the parsed body, if any.\<close>

definition body_type :: "webhook_payload option \<Rightarrow> string option" where
  "body_type b = (case b of None \<Rightarrow> None | Some p \<Rightarrow> payload_type p)"


section \<open>Image helpers: sanity/lib/image.ts\<close>

subsection \<open>Strings and numbers\<close>

text \<open>
  A JavaScript string is a sequence of UTF-16 code units.  \<open>utf16\<close> gives the code units of
  an ASCII literal, one per character.
\<close>

type_synonym code_unit = nat

type_synonym js_string = "code_unit list"

definition code_unit_of :: "char \<Rightarrow> code_unit" where
  "code_unit_of c = of_char c"

definition utf16 :: "string \<Rightarrow> js_string" where
  "utf16 s = map code_unit_of s"

text \<open>
  A JavaScript number is a double: \<open>NaN\<close>, an infinity, negative zero, or \<open>Num x\<close> for a
  finite value \<open>x\<close> other than negative zero (\<open>Num 0\<close> is positive zero).  The finite values
  that occur are the rationals a double can hold; \<open>to_double\<close> rounds an exact magnitude
  to the nearest of them, ties to the even significand, as IEEE 754 arithmetic and the
  conversion of numeric literals do.
\<close>

datatype jsnum = NaN | PosInfinity | NegInfinity | NegZero | Num rat

definition pow2 :: "int \<Rightarrow> rat" where
  "pow2 k = (if 0 \<le> k then 2 ^ nat k else 1 / 2 ^ nat (- k))"

text \<open>For \<open>a > 0\<close>, the integer \<open>e\<close> with \<open>2^e \<le> a < 2^(e+1)\<close>.\<close>

definition ilog2 :: "rat \<Rightarrow> int" where
  "ilog2 a =
     (case quotient_of a of
        (n, d) \<Rightarrow> (let e0 = bitlen n - bitlen d in if pow2 e0 \<le> a then e0 else e0 - 1))"

definition round_half_even :: "rat \<Rightarrow> int" where
  "round_half_even r =
     (let f = \<lfloor>r\<rfloor>; d = r - of_int f
      in if d < 1 / 2 then f
         else if 1 / 2 < d then f + 1
         else if even f then f else f + 1)"

text \<open>
  The double nearest to a magnitude \<open>a > 0\<close>: 53 significant bits, the least exponent
  \<open>-1022\<close> (below it the spacing stays \<open>2^-1074\<close> and the result may be zero), and no
  finite result from \<open>2^1024\<close> on (\<open>None\<close>: the result is an infinity).
\<close>

definition round_magnitude :: "rat \<Rightarrow> rat option" where
  "round_magnitude a =
     (let p = max (ilog2 a) (- 1022) - 52;
          v = of_int (round_half_even (a / pow2 p)) * pow2 p
      in if pow2 1024 \<le> v then None else Some v)"

definition signed_zero :: "bool \<Rightarrow> jsnum" where
  "signed_zero negative = (if negative then NegZero else Num 0)"

text \<open>The double for the sign \<open>negative\<close> and the exact magnitude \<open>a \<ge> 0\<close>.\<close>

definition to_double :: "bool \<Rightarrow> rat \<Rightarrow> jsnum" where
  "to_double negative a =
     (if a = 0 then signed_zero negative
      else (case round_magnitude a of
              None \<Rightarrow> if negative then NegInfinity else PosInfinity
            | Some v \<Rightarrow>
                if v = 0 then signed_zero negative
                else Num (if negative then - v else v)))"

text \<open>Truthiness of a number: \<open>NaN\<close> and both zeros are falsy.\<close>

definition num_truthy :: "jsnum \<Rightarrow> bool" where
  "num_truthy n = (n \<noteq> NaN \<and> n \<noteq> Num 0 \<and> n \<noteq> NegZero)"

definition negate :: "jsnum \<Rightarrow> jsnum" where
  "negate n =
     (case n of
        NaN \<Rightarrow> NaN
      | PosInfinity \<Rightarrow> NegInfinity
      | NegInfinity \<Rightarrow> PosInfinity
      | NegZero \<Rightarrow> Num 0
      | Num x \<Rightarrow> if x = 0 then NegZero else Num (- x))"

definition sign_bit :: "jsnum \<Rightarrow> bool" where
  "sign_bit n =
     (case n of
        NaN \<Rightarrow> False
      | PosInfinity \<Rightarrow> False
      | NegInfinity \<Rightarrow> True
      | NegZero \<Rightarrow> True
      | Num x \<Rightarrow> x < 0)"

definition is_infinite :: "jsnum \<Rightarrow> bool" where
  "is_infinite n = (n = PosInfinity \<or> n = NegInfinity)"

definition is_zero :: "jsnum \<Rightarrow> bool" where
  "is_zero n = (n = Num 0 \<or> n = NegZero)"

definition magnitude :: "jsnum \<Rightarrow> rat" where
  "magnitude n = (case n of Num x \<Rightarrow> \<bar>x\<bar> | _ \<Rightarrow> 0)"

text \<open>
  The operator \<open>/\<close>: \<open>NaN\<close> for a \<open>NaN\<close> operand, for infinity by infinity and for zero by
  zero; otherwise the sign is the exclusive or of the signs, and the magnitude is
  infinite, zero, or the exact quotient rounded to a double.
\<close>

definition js_divide :: "jsnum \<Rightarrow> jsnum \<Rightarrow> jsnum" where
  "js_divide a b =
     (let negative = (sign_bit a \<noteq> sign_bit b)
      in if a = NaN \<or> b = NaN then NaN
         else if is_infinite a then
           (if is_infinite b then NaN
            else if negative then NegInfinity else PosInfinity)
         else if is_infinite b then signed_zero negative
         else if is_zero b then
           (if is_zero a then NaN
            else if negative then NegInfinity else PosInfinity)
         else to_double negative (magnitude a / magnitude b))"

subsection \<open>\<open>split\<close> and \<open>Number\<close>\<close>

text \<open>
  \<open>s.split(sep)\<close> for a one-character separator: the pieces between the separators, empty
  pieces included; a string without the separator is its own single piece.
\<close>

fun split_on :: "'a \<Rightarrow> 'a list \<Rightarrow> 'a list list" where
  "split_on sep [] = [[]]"
| "split_on sep (c # cs) =
     (if c = sep then [] # split_on sep cs
      else (case split_on sep cs of
              w # ws \<Rightarrow> (c # w) # ws
            | [] \<Rightarrow> [[c]]))"

text \<open>An array read \<open>xs[i]\<close>: \<open>undefined\<close> past the end.\<close>

definition at_index :: "'a list \<Rightarrow> nat \<Rightarrow> 'a option" where
  "at_index xs i = (if i < length xs then Some (xs ! i) else None)"

text \<open>
  \<open>Number(s)\<close> on a string is the StringToNumber conversion of ECMAScript: white space and
  line terminators are trimmed, the empty string is \<open>0\<close>, and the rest must be a numeric
  literal (an optionally signed decimal with optional fraction and exponent, an optionally
  signed \<open>Infinity\<close>, or an unsigned hexadecimal, octal or binary literal); anything else
  is \<open>NaN\<close>.  The value of the literal is rounded to a double.

  The white space of ECMAScript: TAB, LF, VT, FF, CR, SP, NBSP, U+1680, U+2000 to U+200A,
  LS, PS, U+202F, U+205F, U+3000 and U+FEFF.
\<close>

definition is_space :: "code_unit \<Rightarrow> bool" where
  "is_space c =
     (c \<in> set [9, 10, 11, 12, 13, 32, 160, 5760, 8232, 8233, 8239, 8287, 12288, 65279]
      \<or> (8192 \<le> c \<and> c \<le> 8202))"

definition trim :: "js_string \<Rightarrow> js_string" where
  "trim s = rev (dropWhile is_space (rev (dropWhile is_space s)))"

definition digit_value :: "code_unit \<Rightarrow> nat option" where
  "digit_value c =
     (if 48 \<le> c \<and> c \<le> 57 then Some (c - 48)
      else if 97 \<le> c \<and> c \<le> 102 then Some (c - 87)
      else if 65 \<le> c \<and> c \<le> 70 then Some (c - 55)
      else None)"

definition is_digit :: "nat \<Rightarrow> code_unit \<Rightarrow> bool" where
  "is_digit base c = (case digit_value c of None \<Rightarrow> False | Some d \<Rightarrow> d < base)"

text \<open>The integer a digit string denotes in a base.\<close>

definition digits_value :: "int \<Rightarrow> js_string \<Rightarrow> int" where
  "digits_value base ds =
     foldl (\<lambda>acc c. acc * base + (case digit_value c of None \<Rightarrow> 0 | Some d \<Rightarrow> int d)) 0 ds"

definition radix_literal :: "nat \<Rightarrow> js_string \<Rightarrow> jsnum" where
  "radix_literal base ds =
     (if ds \<noteq> [] \<and> list_all (is_digit base) ds
      then to_double False (of_int (digits_value (int base) ds))
      else NaN)"

definition non_decimal_literal :: "js_string \<Rightarrow> jsnum option" where
  "non_decimal_literal s =
     (case s of
        c0 # c1 # ds \<Rightarrow>
          if c0 \<noteq> code_unit_of CHR ''0'' then None
          else if c1 = code_unit_of CHR ''x'' \<or> c1 = code_unit_of CHR ''X''
            then Some (radix_literal 16 ds)
          else if c1 = code_unit_of CHR ''o'' \<or> c1 = code_unit_of CHR ''O''
            then Some (radix_literal 8 ds)
          else if c1 = code_unit_of CHR ''b'' \<or> c1 = code_unit_of CHR ''B''
            then Some (radix_literal 2 ds)
          else None
      | _ \<Rightarrow> None)"

text \<open>The exponent part: absent, or \<open>e\<close>/\<open>E\<close>, an optional sign and at least one digit.\<close>

definition exponent_part :: "js_string \<Rightarrow> int option" where
  "exponent_part s =
     (case s of
        [] \<Rightarrow> Some 0
      | c # t \<Rightarrow>
          if c \<noteq> code_unit_of CHR ''e'' \<and> c \<noteq> code_unit_of CHR ''E'' then None
          else (let neg = (case t of [] \<Rightarrow> False | d # _ \<Rightarrow> d = code_unit_of CHR ''-'');
                    ds = (case t of [] \<Rightarrow> []
                          | d # u \<Rightarrow>
                              if d = code_unit_of CHR ''+'' \<or> d = code_unit_of CHR ''-''
                              then u else t)
                in if ds \<noteq> [] \<and> list_all (is_digit 10) ds
                   then Some (if neg then - digits_value 10 ds else digits_value 10 ds)
                   else None))"

definition scale10 :: "rat \<Rightarrow> int \<Rightarrow> rat" where
  "scale10 x k = (if 0 \<le> k then x * 10 ^ nat k else x / 10 ^ nat (- k))"

definition unsigned_decimal :: "js_string \<Rightarrow> jsnum" where
  "unsigned_decimal s =
     (if s = utf16 ''Infinity'' then PosInfinity
      else
        (let ip = takeWhile (is_digit 10) s;
             r = dropWhile (is_digit 10) s;
             dot = (case r of [] \<Rightarrow> False | c # _ \<Rightarrow> c = code_unit_of CHR ''.'');
             fp = (if dot then takeWhile (is_digit 10) (tl r) else []);
             r2 = (if dot then dropWhile (is_digit 10) (tl r) else r)
         in if ip = [] \<and> fp = [] then NaN
            else (case exponent_part r2 of
                    None \<Rightarrow> NaN
                  | Some k \<Rightarrow>
                      to_double False
                        (scale10 (of_int (digits_value 10 (ip @ fp)))
                           (k - int (length fp))))))"

definition decimal_literal :: "js_string \<Rightarrow> jsnum" where
  "decimal_literal s =
     (case s of
        [] \<Rightarrow> NaN
      | c # t \<Rightarrow>
          if c = code_unit_of CHR ''+'' then unsigned_decimal t
          else if c = code_unit_of CHR ''-'' then negate (unsigned_decimal t)
          else unsigned_decimal s)"

definition Number_js :: "js_string \<Rightarrow> jsnum" where
  "Number_js s =
     (let t = trim s
      in if t = [] then Num 0
         else (case non_decimal_literal t of
                 Some n \<Rightarrow> n
               | None \<Rightarrow> decimal_literal t))"

subsection \<open>\<open>getImageDimensions\<close>\<close>

text \<open>The argument, as far as the function reads it: \<open>image.asset._ref\<close>, each part optional.\<close>

record asset_reference =
  ref :: "js_string option"

record image_source =
  asset :: "asset_reference option"

record image_dimensions =
  width :: jsnum
  height :: jsnum
  aspectRatio :: jsnum

text \<open>\<open>x || 0\<close> on a destructured array element, which is \<open>undefined\<close> when the array is short.\<close>

definition or_zero :: "jsnum option \<Rightarrow> jsnum" where
  "or_zero v = (case v of None \<Rightarrow> Num 0 | Some n \<Rightarrow> if num_truthy n then n else Num 0)"

definition no_dimensions :: image_dimensions where
  "no_dimensions = \<lparr>width = Num 0, height = Num 0, aspectRatio = Num 1\<rparr>"

text \<open>
  Lines 19 to 37.  Every operation of the body is total in JavaScript (optional chaining,
  \<open>split\<close>, an array read, \<open>Number\<close>, \<open>||\<close>, \<open>/\<close>), so the function has no error result.
\<close>

definition getImageDimensions :: "image_source \<Rightarrow> image_dimensions" where
  "getImageDimensions img =
     (case asset img of
        None \<Rightarrow> no_dimensions
      | Some a \<Rightarrow>
          (case ref a of
             None \<Rightarrow> no_dimensions
           | Some r \<Rightarrow>
               if r = [] then no_dimensions
               else
                 (case at_index (split_on (code_unit_of CHR ''-'') r) 2 of
                    None \<Rightarrow> no_dimensions
                  | Some dims \<Rightarrow>
                      if dims = [] then no_dimensions
                      else
                        (let nums = map Number_js (split_on (code_unit_of CHR ''x'') dims);
                             w = at_index nums 0;
                             h = at_index nums 1
                         in \<lparr>width = or_zero w,
                             height = or_zero h,
                             aspectRatio =
                               (case h of
                                  None \<Rightarrow> Num 1
                                | Some hv \<Rightarrow>
                                    if num_truthy hv
                                    then js_divide (case w of None \<Rightarrow> NaN | Some wv \<Rightarrow> wv) hv
                                    else Num 1)\<rparr>))))"


section \<open>The fetch wrapper: sanity/lib/client.ts\<close>

text \<open>
  \<open>sanityFetch({ query, params = {}, revalidate = 60, tags = [] })\<close> returns
  \<open>client.fetch(query, params, { next: { revalidate, tags } })\<close>.  An argument left out is
  \<open>None\<close>; the default of a destructured parameter applies exactly then.  \<open>revalidate\<close> has
  type \<open>number | false\<close>.
\<close>

datatype revalidate_window = Seconds jsnum | NoExpiry

record next_options =
  next_revalidate :: revalidate_window
  next_tags :: "string list"

record 'v fetch_arguments =
  query :: string
  params :: "(string \<rightharpoonup> 'v) option"
  arg_revalidate :: "revalidate_window option"
  arg_tags :: "string list option"

text \<open>
  The client is a parameter.  A call takes the query, the parameter mapping and the cache
  options, acts on the outside world \<open>'w\<close> (the network, the framework's cache) and
  settles with a value (\<open>Inr\<close>) or a rejection (\<open>Inl\<close>).
\<close>

type_synonym ('v, 'a, 'w) cms_client =
  "string \<Rightarrow> (string \<rightharpoonup> 'v) \<Rightarrow> next_options \<Rightarrow> 'w \<Rightarrow> (thrown + 'a) \<times> 'w"

definition sanityFetch ::
  "('v, 'a, 'w) cms_client \<Rightarrow> 'v fetch_arguments \<Rightarrow> 'w \<Rightarrow> (thrown + 'a) \<times> 'w" where
  "sanityFetch client args world =
     client (query args)
       (case params args of None \<Rightarrow> Map.empty | Some p \<Rightarrow> p)
       \<lparr>next_revalidate = (case arg_revalidate args of None \<Rightarrow> Seconds (Num 60) | Some r \<Rightarrow> r),
        next_tags = (case arg_tags args of None \<Rightarrow> [] | Some ts \<Rightarrow> ts)\<rparr>
       world"


text \<open>
  To count the calls a client receives, \<open>recording client\<close> behaves as \<open>client\<close> and
  appends each call it gets to a journal kept beside the world.
\<close>

definition recording ::
  "('v, 'a, 'w) cms_client
     \<Rightarrow> ('v, 'a, (string \<times> (string \<rightharpoonup> 'v) \<times> next_options) list \<times> 'w) cms_client" where
  "recording client q p opts =
     (\<lambda>(journal, world). case client q p opts world of
                            (result, world') \<Rightarrow> (result, (journal @ [(q, p, opts)], world')))"


section \<open>Content queries: sanity/lib/queries.ts\<close>

text \<open>
  The queries are GROQ text run by the content service.  The two queries below are
  written out over a dataset with the meaning GROQ gives their operators:
  \<open>*[filter]\<close> keeps the documents for which the filter is \<open>true\<close>, in dataset order;
  \<open>| order(f asc)\<close> and \<open>| order(f desc)\<close> sort stably by \<open>f\<close>; \<open>[0]\<close> is the first element or
  \<open>null\<close>; \<open>[$start...$end]\<close> is the slice from \<open>start\<close> up to and excluding \<open>end\<close>,
  cut at the end of the array; and \<open>a > b\<close>, \<open>a < b\<close> are \<open>null\<close> (so not \<open>true\<close>) when a side
  is \<open>null\<close>.
\<close>

text \<open>
  A project document, with the fields the adjacent-projects query reads.  The schema and
  the type \<open>Project\<close> make \<open>slug\<close> required and \<open>date\<close> optional; dates are values of an
  ordered type (ISO date strings in the dataset).
\<close>

record ('d, 'img) project =
  project_id :: string
  project_title :: string
  project_slug :: string
  project_date :: "'d option"
  project_cover :: 'img

text \<open>
  A blog post, with the fields the listing query projects.  \<open>publishedAt\<close> is the sort key:
  a value of the engine's total order on field values.
\<close>

record ('k, 'img) blog_post =
  post_id :: string
  post_title :: string
  post_slug :: string
  post_excerpt :: "string option"
  publishedAt :: 'k
  post_cover :: "'img option"
  post_tags :: "string list option"

datatype ('d, 'k, 'img) document =
    Project "('d, 'img) project"
  | BlogPost "('k, 'img) blog_post"
  | OtherDocument string

text \<open>\<open>*[_type == "project"]\<close> and \<open>*[_type == "blogPost"]\<close>.\<close>

definition projects_of :: "('d, 'k, 'img) document list \<Rightarrow> ('d, 'img) project list" where
  "projects_of ds = List.map_filter (\<lambda>d. case d of Project p \<Rightarrow> Some p | _ \<Rightarrow> None) ds"

definition blog_posts_of :: "('d, 'k, 'img) document list \<Rightarrow> ('k, 'img) blog_post list" where
  "blog_posts_of ds = List.map_filter (\<lambda>d. case d of BlogPost p \<Rightarrow> Some p | _ \<Rightarrow> None) ds"

definition order_asc :: "('a \<Rightarrow> 'k::linorder) \<Rightarrow> 'a list \<Rightarrow> 'a list" where
  "order_asc f xs = sort_key f xs"

definition order_desc :: "('a \<Rightarrow> 'k::linorder) \<Rightarrow> 'a list \<Rightarrow> 'a list" where
  "order_desc f xs = rev (sort_key f (rev xs))"

definition first_of :: "'a list \<Rightarrow> 'a option" where
  "first_of xs = (case xs of [] \<Rightarrow> None | x # _ \<Rightarrow> Some x)"

definition slice :: "nat \<Rightarrow> nat \<Rightarrow> 'a list \<Rightarrow> 'a list" where
  "slice start end xs = take (end - start) (drop start xs)"

subsection \<open>\<open>adjacentProjectsQuery\<close>\<close>

text \<open>\<open>date > $date\<close> and \<open>date < $date\<close> on a project.\<close>

definition date_after :: "'d::linorder \<Rightarrow> ('d, 'img) project \<Rightarrow> bool" where
  "date_after d p = (case project_date p of None \<Rightarrow> False | Some d' \<Rightarrow> d < d')"

definition date_before :: "'d::linorder \<Rightarrow> ('d, 'img) project \<Rightarrow> bool" where
  "date_before d p = (case project_date p of None \<Rightarrow> False | Some d' \<Rightarrow> d' < d)"

text \<open>The projection \<open>{ _id, title, "slug": slug.current, coverImage {...} }\<close>.\<close>

record 'img adjacent_item =
  item_id :: string
  item_title :: string
  item_slug :: string
  item_cover :: 'img

definition project_item :: "('d, 'img) project \<Rightarrow> 'img adjacent_item" where
  "project_item p =
     \<lparr>item_id = project_id p, item_title = project_title p, item_slug = project_slug p,
      item_cover = project_cover p\<rparr>"

text \<open>
  \<open>*[_type == "project" && date > $date] | order(date asc)[0]\<close>: the document chosen for
  \<open>"previous"\<close>.  The parameter \<open>$slug\<close> does not occur in this branch.
\<close>

definition previous_project ::
  "('d::linorder, 'k, 'img) document list \<Rightarrow> 'd \<Rightarrow> ('d, 'img) project option" where
  "previous_project ds d =
     first_of (order_asc project_date (filter (date_after d) (projects_of ds)))"

text \<open>
  \<open>*[_type == "project" && date < $date && slug.current != $slug] | order(date desc)[0]\<close>:
  the document chosen for \<open>"next"\<close>.
\<close>

definition next_project ::
  "('d::linorder, 'k, 'img) document list \<Rightarrow> 'd \<Rightarrow> string \<Rightarrow> ('d, 'img) project option" where
  "next_project ds d s =
     first_of (order_desc project_date
       (filter (\<lambda>p. date_before d p \<and> project_slug p \<noteq> s) (projects_of ds)))"

text \<open>The object \<open>{ "previous": ..., "next": ... }\<close> the query returns.\<close>

record 'img adjacent_projects =
  adjacent_previous :: "'img adjacent_item option"
  adjacent_next :: "'img adjacent_item option"

definition adjacentProjectsQuery ::
  "('d::linorder, 'k, 'img) document list \<Rightarrow> 'd \<Rightarrow> string \<Rightarrow> 'img adjacent_projects" where
  "adjacentProjectsQuery ds d s =
     \<lparr>adjacent_previous = map_option project_item (previous_project ds d),
      adjacent_next = map_option project_item (next_project ds d s)\<rparr>"

subsection \<open>\<open>blogPostsQuery\<close>\<close>

text \<open>
  \<open>*[_type == "blogPost"] | order(publishedAt desc)[$start...$end] {...}\<close>.  The projection
  keeps the fields of \<open>blog_post\<close>.
\<close>

definition blogPostsQuery ::
  "('d, 'k::linorder, 'img) document list \<Rightarrow> nat \<Rightarrow> nat \<Rightarrow> ('k, 'img) blog_post list" where
  "blogPostsQuery ds start end = slice start end (order_desc publishedAt (blog_posts_of ds))"


section \<open>Properties of the revalidation webhook\<close>

lemmas step_defs = tag_step_def path_step_def revalidate_detail_def slug_current_def
  revalidate_singleton_def revalidate_layout_def revalidate_listings_def
  prop_truthy_def prop_text_def

lemmas table_defs = documentTypeToTags_def documentTypeToPath_def singletonPaths_def
  object_prototype_keys_def

subsection \<open>The tag table\<close>

lemma documentTypeToTags_own:
  "map_of documentTypeToTags t = Some ts \<Longrightarrow> ts = [t]"
  by (auto simp: documentTypeToTags_def split: if_splits)

lemma documentTypeToTags_shape:
  "length documentTypeToTags = 8 \<and> distinct (map fst documentTypeToTags)
   \<and> list_all (\<lambda>(k, ts). ts = [k]) documentTypeToTags"
  by (simp add: documentTypeToTags_def)

lemma inherited_not_in_tags:
  "t \<in> set object_prototype_keys \<Longrightarrow> map_of documentTypeToTags t = None"
  unfolding object_prototype_keys_def documentTypeToTags_def
  by (elim set_ConsD [elim_format] disjE; simp)

lemma revalidate_by_type_inherited:
  "t \<in> set object_prototype_keys \<Longrightarrow>
     revalidate_by_type t st = Inl (ErrorObject ''tags is not iterable'')"
  by (simp add: revalidate_by_type_def obj_get_def inherited_not_in_tags)

lemma revalidate_by_type_other:
  assumes "t \<notin> set object_prototype_keys"
  shows "revalidate_by_type t st = Inr (tag_step t st)"
proof (cases "map_of documentTypeToTags t")
  case None
  with assms show ?thesis by (simp add: revalidate_by_type_def obj_get_def)
next
  case (Some ts)
  then have "ts = [t]" by (rule documentTypeToTags_own)
  with Some show ?thesis by (simp add: revalidate_by_type_def obj_get_def)
qed

subsection \<open>The path steps leave the tags alone\<close>

lemma detail_keeps_tags: "revalidatedTags (revalidate_detail t p st) = revalidatedTags st"
  by (simp add: revalidate_detail_def path_step_def Let_def split: option.splits)

lemma singleton_keeps_tags: "revalidatedTags (revalidate_singleton t st) = revalidatedTags st"
  by (simp add: revalidate_singleton_def path_step_def Let_def)

lemma layout_keeps_tags: "revalidatedTags (revalidate_layout t st) = revalidatedTags st"
  by (simp add: revalidate_layout_def path_step_def)

lemma listings_keep_tags: "revalidatedTags (revalidate_listings t st) = revalidatedTags st"
  by (simp add: revalidate_listings_def path_step_def Let_def)

lemmas path_steps_keep_tags =
  detail_keeps_tags singleton_keeps_tags layout_keeps_tags listings_keep_tags

subsection \<open>An accepted payload\<close>

lemma revalidate_document_other:
  assumes "t \<notin> set object_prototype_keys"
  shows "revalidate_document t p cache =
     (let st2 = revalidate_listings t (revalidate_layout t (revalidate_singleton t
                  (revalidate_detail t p
                     \<lparr>revalidatedTags = [t], revalidatedPaths = [],
                      calls = cache @ [RevalidateTag t]\<rparr>)))
      in (Inr \<lparr>status = 200, body = Revalidated t [t] (revalidatedPaths st2)\<rparr>, calls st2))"
  using assms
  by (simp add: revalidate_document_def revalidate_by_type_other tag_step_def Let_def
      path_steps_keep_tags)

lemma revalidate_document_inherited:
  assumes "t \<in> set object_prototype_keys"
  shows "revalidate_document t p cache = (Inl (ErrorObject ''tags is not iterable''), cache)"
  using assms by (simp add: revalidate_document_def revalidate_by_type_inherited)

lemma POST_accepted:
  assumes "sec \<noteq> []" and "t \<noteq> []" and "payload_type p = Some t"
    and "parseBody req sec True = Parsed (Some True) (Some p)"
  shows "POST parseBody (Some sec) req cache =
     (case revalidate_document t p cache of
        (Inr r, cache') \<Rightarrow> (r, cache')
      | (Inl err, cache') \<Rightarrow>
          (\<lparr>status = 500,
            body = ProcessingError
                     (case err of ErrorObject m \<Rightarrow> m | NonError \<Rightarrow> ''Unknown error'')\<rparr>,
           cache'))"
  using assms by (simp add: POST_def try_block_def handle_parsed_def)

text \<open>
  Outside the member names of \<open>Object.prototype\<close>, an accepted payload is answered with
  200 and the single tag that is its type name, whether the type is in the table or not.
\<close>

lemma POST_accepted_tags:
  assumes "sec \<noteq> []" and "t \<noteq> []" and "payload_type p = Some t"
    and "parseBody req sec True = Parsed (Some True) (Some p)"
    and "t \<notin> set object_prototype_keys"
  shows "status (fst (POST parseBody (Some sec) req cache)) = 200
       \<and> response_tags (fst (POST parseBody (Some sec) req cache)) = Some [t]"
  using assms
  by (simp add: POST_accepted [where t = t and p = p] revalidate_document_other
      Let_def response_tags_def)

text \<open>A type in none of the three tables gets its own name as the tag and no path.\<close>

lemma POST_unknown_type_fallback:
  assumes "sec \<noteq> []" and "t \<noteq> []" and "payload_type p = Some t"
    and "parseBody req sec True = Parsed (Some True) (Some p)"
    and "t \<notin> set object_prototype_keys"
    and "t \<notin> fst ` set documentTypeToTags"
    and "t \<notin> fst ` set documentTypeToPath"
    and "t \<notin> fst ` set singletonPaths"
  shows "POST parseBody (Some sec) req cache =
           (\<lparr>status = 200, body = Revalidated t [t] []\<rparr>, cache @ [RevalidateTag t])"
proof -
  have a: "obj_get documentTypeToPath t = Undefined"
    using assms(5,7) by (simp add: obj_get_def documentTypeToPath_def)
  have b: "obj_get singletonPaths t = Undefined"
    using assms(5,8) by (simp add: obj_get_def singletonPaths_def)
  have c: "t \<noteq> ''siteSettings''" "t \<noteq> ''navigation''" "t \<noteq> ''blogPost''" "t \<noteq> ''project''"
    using assms(6) by (auto simp: documentTypeToTags_def)
  show ?thesis
    using assms(1-5) a b c
    by (simp add: POST_accepted [where t = t and p = p] revalidate_document_other step_defs
        Let_def split: option.splits)
qed

subsection \<open>Replaying a notification\<close>

text \<open>
  Every step appends to the cache calls and reads nothing from them, so the handler's
  response does not depend on the calls already made.
\<close>

lemma detail_shift:
  "revalidate_detail t p (st\<lparr>calls := c @ calls st\<rparr>) =
     (revalidate_detail t p st)\<lparr>calls := c @ calls (revalidate_detail t p st)\<rparr>"
  by (simp add: revalidate_detail_def path_step_def Let_def split: option.splits)

lemma singleton_shift:
  "revalidate_singleton t (st\<lparr>calls := c @ calls st\<rparr>) =
     (revalidate_singleton t st)\<lparr>calls := c @ calls (revalidate_singleton t st)\<rparr>"
  by (simp add: revalidate_singleton_def path_step_def Let_def)

lemma layout_shift:
  "revalidate_layout t (st\<lparr>calls := c @ calls st\<rparr>) =
     (revalidate_layout t st)\<lparr>calls := c @ calls (revalidate_layout t st)\<rparr>"
  by (simp add: revalidate_layout_def path_step_def)

lemma listings_shift:
  "revalidate_listings t (st\<lparr>calls := c @ calls st\<rparr>) =
     (revalidate_listings t st)\<lparr>calls := c @ calls (revalidate_listings t st)\<rparr>"
  by (simp add: revalidate_listings_def path_step_def Let_def)

lemma tag_step_shift:
  "tag_step tag (st\<lparr>calls := c @ calls st\<rparr>) =
     (tag_step tag st)\<lparr>calls := c @ calls (tag_step tag st)\<rparr>"
  by (simp add: tag_step_def)

lemma tag_loop_shift:
  "tag_loop ts (st\<lparr>calls := c @ calls st\<rparr>) =
     (tag_loop ts st)\<lparr>calls := c @ calls (tag_loop ts st)\<rparr>"
  by (induction ts arbitrary: st) (simp_all add: tag_step_shift)

lemma revalidate_by_type_shift:
  "revalidate_by_type t (st\<lparr>calls := c @ calls st\<rparr>) =
     map_sum id (\<lambda>s. s\<lparr>calls := c @ calls s\<rparr>) (revalidate_by_type t st)"
  by (simp add: revalidate_by_type_def tag_loop_shift tag_step_shift split: js_prop.splits)

lemma revalidate_document_shift:
  "revalidate_document t p (c @ cache) =
     (fst (revalidate_document t p cache), c @ snd (revalidate_document t p cache))"
proof -
  let ?st = "\<lparr>revalidatedTags = [], revalidatedPaths = [], calls = cache\<rparr>"
  have "\<lparr>revalidatedTags = [], revalidatedPaths = [], calls = c @ cache\<rparr>
          = ?st\<lparr>calls := c @ calls ?st\<rparr>"
    by simp
  then have "revalidate_by_type t \<lparr>revalidatedTags = [], revalidatedPaths = [], calls = c @ cache\<rparr>
          = map_sum id (\<lambda>s. s\<lparr>calls := c @ calls s\<rparr>) (revalidate_by_type t ?st)"
    by (simp only: revalidate_by_type_shift)
  then show ?thesis
    by (cases "revalidate_by_type t ?st")
       (simp_all add: revalidate_document_def Let_def detail_shift singleton_shift layout_shift
          listings_shift)
qed

lemma handle_parsed_shift:
  "handle_parsed outcome (c @ cache) =
     (fst (handle_parsed outcome cache), c @ snd (handle_parsed outcome cache))"
  by (simp add: handle_parsed_def revalidate_document_shift [of _ _ c cache]
      split: parse_result.splits option.splits)

lemma POST_shift:
  "POST parseBody secret req (c @ cache) =
     (fst (POST parseBody secret req cache), c @ snd (POST parseBody secret req cache))"
  by (simp add: POST_def try_block_def handle_parsed_shift [of _ c cache]
      split: option.splits prod.splits sum.splits)

text \<open>
  A second delivery of the same notification gets the same response and repeats the same
  cache calls, for every request and whatever the response is.
\<close>

lemma POST_replay:
  assumes "POST parseBody secret req cache = (r, cache1)"
  shows "\<exists>busts. cache1 = cache @ busts
           \<and> POST parseBody secret req cache1 = (r, cache1 @ busts)
           \<and> set (cache1 @ busts) = set cache1"
proof -
  have a: "POST parseBody secret req cache =
        (fst (POST parseBody secret req []), cache @ snd (POST parseBody secret req []))"
    using POST_shift [of parseBody secret req cache "[]"] by simp
  have b: "POST parseBody secret req cache1 =
        (fst (POST parseBody secret req []), cache1 @ snd (POST parseBody secret req []))"
    using POST_shift [of parseBody secret req cache1 "[]"] by simp
  from a b assms show ?thesis by auto
qed

lemma layout_type_facts:
  assumes "t = ''siteSettings'' \<or> t = ''navigation''"
  shows "t \<noteq> []" and "t \<notin> set object_prototype_keys"
    and "obj_get documentTypeToPath t = Undefined"
    and "obj_get singletonPaths t = Undefined"
    and "t \<noteq> ''blogPost''" and "t \<noteq> ''project''"
  using assms by (elim disjE; simp add: obj_get_def table_defs)+

subsection \<open>Claims about the webhook\<close>

text \<open>
  Claim C1.  With the secret configured and a valid signature, the notification
  \<open>{_type: "blogPost", slug: {current: "my-post"}}\<close> (with or without an \<open>_id\<close>) is answered
  with status 200, tags \<open>["blogPost"]\<close> and the paths \<open>/blog/my-post\<close>, \<open>/blog\<close> and \<open>/\<close>: the
  detail page, the listing page and the homepage, invalidated in that order after the tag.
\<close>

theorem POST_blogPost_with_slug:
  assumes "sec \<noteq> []"
    and "parseBody req sec True =
           Parsed (Some True)
             (Some \<lparr>payload_type = Some ''blogPost'', payload_id = i,
                    payload_slug = Some \<lparr>current = Some ''my-post''\<rparr>\<rparr>)"
  shows "POST parseBody (Some sec) req cache =
           (\<lparr>status = 200,
             body = Revalidated ''blogPost'' [''blogPost'']
                      [''/blog/my-post'', ''/blog'', ''/'']\<rparr>,
            cache @ [RevalidateTag ''blogPost'',
                     RevalidatePath ''/blog/my-post'' None,
                     RevalidatePath ''/blog'' None,
                     RevalidatePath ''/'' None])"
proof -
  let ?p = "\<lparr>payload_type = Some ''blogPost'', payload_id = i,
             payload_slug = Some \<lparr>current = Some ''my-post''\<rparr>\<rparr>"
  have doc: "revalidate_document ''blogPost'' ?p cache =
      (Inr \<lparr>status = 200,
            body = Revalidated ''blogPost'' [''blogPost'']
                     [''/blog/my-post'', ''/blog'', ''/'']\<rparr>,
       cache @ [RevalidateTag ''blogPost'', RevalidatePath ''/blog/my-post'' None,
                RevalidatePath ''/blog'' None, RevalidatePath ''/'' None])"
    by (simp add: revalidate_document_other object_prototype_keys_def)
       (simp add: step_defs obj_get_def table_defs Let_def)
  show ?thesis
    using assms
    by (simp add: POST_accepted [where t = "''blogPost''" and p = ?p] doc)
qed

text \<open>The theorem at a concrete delivery: secret \<open>s3cret\<close>, no \<open>_id\<close>, an empty call log.\<close>

theorem POST_blogPost_with_slug_witness:
  "''s3cret'' \<noteq> []
   \<and> POST (\<lambda>req sec wait. Parsed (Some True)
              (Some \<lparr>payload_type = Some ''blogPost'', payload_id = None,
                     payload_slug = Some \<lparr>current = Some ''my-post''\<rparr>\<rparr>))
        (Some ''s3cret'') () []
     = (\<lparr>status = 200,
         body = Revalidated ''blogPost'' [''blogPost''] [''/blog/my-post'', ''/blog'', ''/'']\<rparr>,
        [RevalidateTag ''blogPost'', RevalidatePath ''/blog/my-post'' None,
         RevalidatePath ''/blog'' None, RevalidatePath ''/'' None])"
  using POST_blogPost_with_slug
    [of "''s3cret''"
        "\<lambda>req sec wait. Parsed (Some True)
              (Some \<lparr>payload_type = Some ''blogPost'', payload_id = None,
                     payload_slug = Some \<lparr>current = Some ''my-post''\<rparr>\<rparr>)"
        "()" None "[]"]
  by simp

text \<open>
  Claim C2, as stated, gives every request with a configured secret one of the statuses
  401, 400 and 200.  A delivery whose body \<open>parseBody\<close> cannot parse makes \<open>parseBody\<close>
  throw inside the \<open>try\<close> block; the \<open>catch\<close> clause answers 500.
\<close>

theorem POST_parse_failure_counterexample:
  "truthy (Some ''s3cret'')
   \<and> status (fst (POST (\<lambda>req sec wait. ParseThrows (ErrorObject ''Unexpected token''))
                     (Some ''s3cret'') () [])) = 500
   \<and> status (fst (POST (\<lambda>req sec wait. ParseThrows (ErrorObject ''Unexpected token''))
                     (Some ''s3cret'') () [])) \<notin> {401, 400, 200}"
  by (simp add: truthy_def POST_def try_block_def handle_parsed_def)

text \<open>
  Claim C2, amended.  The status is decided in this order: 500 when the secret is unset or
  empty (nothing is invalidated); otherwise 500 when \<open>parseBody\<close> throws; otherwise 401
  when the signature is not valid (\<open>false\<close> or \<open>null\<close>), and then nothing is invalidated
  and the response carries neither tags nor paths; otherwise 400 when the body is \<open>null\<close>
  or its \<open>_type\<close> is absent or empty (nothing is invalidated); otherwise 200, for every
  type name that is not the name of a member of \<open>Object.prototype\<close>.
\<close>

theorem POST_status_order:
  "(\<not> truthy secret \<longrightarrow>
      status (fst (POST parseBody secret req cache)) = 500
      \<and> snd (POST parseBody secret req cache) = cache)
   \<and> (secret = Some sec \<and> sec \<noteq> [] \<and> parseBody req sec True = ParseThrows e \<longrightarrow>
      status (fst (POST parseBody secret req cache)) = 500)
   \<and> (secret = Some sec \<and> sec \<noteq> [] \<and> parseBody req sec True = Parsed v b
        \<and> v \<noteq> Some True \<longrightarrow>
      status (fst (POST parseBody secret req cache)) = 401
      \<and> snd (POST parseBody secret req cache) = cache
      \<and> response_tags (fst (POST parseBody secret req cache)) = None
      \<and> response_paths (fst (POST parseBody secret req cache)) = None)
   \<and> (secret = Some sec \<and> sec \<noteq> [] \<and> parseBody req sec True = Parsed (Some True) b
        \<and> \<not> truthy (body_type b) \<longrightarrow>
      status (fst (POST parseBody secret req cache)) = 400
      \<and> snd (POST parseBody secret req cache) = cache)
   \<and> (secret = Some sec \<and> sec \<noteq> [] \<and> parseBody req sec True = Parsed (Some True) b
        \<and> body_type b = Some t \<and> t \<noteq> [] \<and> t \<notin> set object_prototype_keys \<longrightarrow>
      status (fst (POST parseBody secret req cache)) = 200)"
proof (intro conjI impI)
  assume "\<not> truthy secret"
  then show "status (fst (POST parseBody secret req cache)) = 500"
    and "snd (POST parseBody secret req cache) = cache"
    by (simp_all add: truthy_def POST_def try_block_def split: option.splits)
next
  assume "secret = Some sec \<and> sec \<noteq> [] \<and> parseBody req sec True = ParseThrows e"
  then show "status (fst (POST parseBody secret req cache)) = 500"
    by (simp add: POST_def try_block_def handle_parsed_def)
next
  assume "secret = Some sec \<and> sec \<noteq> [] \<and> parseBody req sec True = Parsed v b
      \<and> v \<noteq> Some True"
  then have "POST parseBody secret req cache =
      (\<lparr>status = 401, body = InvalidSignature v\<rparr>, cache)"
    by (simp add: POST_def try_block_def handle_parsed_def)
  then show "status (fst (POST parseBody secret req cache)) = 401"
    and "snd (POST parseBody secret req cache) = cache"
    and "response_tags (fst (POST parseBody secret req cache)) = None"
    and "response_paths (fst (POST parseBody secret req cache)) = None"
    by (simp_all add: response_tags_def response_paths_def)
next
  assume "secret = Some sec \<and> sec \<noteq> [] \<and> parseBody req sec True = Parsed (Some True) b
      \<and> \<not> truthy (body_type b)"
  then have "POST parseBody secret req cache =
      (\<lparr>status = 400, body = Message ''Bad Request: missing _type in payload''\<rparr>, cache)"
    by (simp add: POST_def try_block_def handle_parsed_def truthy_def body_type_def
        split: option.splits)
  then show "status (fst (POST parseBody secret req cache)) = 400"
    and "snd (POST parseBody secret req cache) = cache"
    by simp_all
next
  assume a: "secret = Some sec \<and> sec \<noteq> [] \<and> parseBody req sec True = Parsed (Some True) b
      \<and> body_type b = Some t \<and> t \<noteq> [] \<and> t \<notin> set object_prototype_keys"
  then obtain p where p: "b = Some p" "payload_type p = Some t"
    by (auto simp: body_type_def split: option.splits)
  with a show "status (fst (POST parseBody secret req cache)) = 200"
    using POST_accepted_tags [of sec t p parseBody req cache] by simp
qed

text \<open>
  The five cases of the order at concrete deliveries: no secret; an unparsable body; a
  wrong signature; a body without \<open>_type\<close>; a homepage notification.
\<close>

theorem POST_status_order_witness:
  "status (fst (POST (\<lambda>req sec wait. Parsed (Some True) None) None () [])) = 500
   \<and> status (fst (POST (\<lambda>req sec wait. ParseThrows (ErrorObject ''Unexpected token''))
                  (Some ''s3cret'') () [])) = 500
   \<and> status (fst (POST (\<lambda>req sec wait. Parsed (Some False)
                     (Some \<lparr>payload_type = Some ''blogPost'', payload_id = None,
                            payload_slug = None\<rparr>))
                  (Some ''s3cret'') () [])) = 401
   \<and> snd (POST (\<lambda>req sec wait. Parsed (Some False)
                     (Some \<lparr>payload_type = Some ''blogPost'', payload_id = None,
                            payload_slug = None\<rparr>))
                  (Some ''s3cret'') () []) = []
   \<and> status (fst (POST (\<lambda>req sec wait. Parsed (Some True)
                     (Some \<lparr>payload_type = None, payload_id = Some ''doc1'',
                            payload_slug = None\<rparr>))
                  (Some ''s3cret'') () [])) = 400
   \<and> status (fst (POST (\<lambda>req sec wait. Parsed (Some True)
                     (Some \<lparr>payload_type = Some ''homepage'', payload_id = None,
                            payload_slug = None\<rparr>))
                  (Some ''s3cret'') () [])) = 200"
  using
    POST_status_order
      [of None "\<lambda>req sec wait. Parsed (Some True) None" "()" "[]"]
    POST_status_order
      [of "Some ''s3cret''" "\<lambda>req sec wait. ParseThrows (ErrorObject ''Unexpected token'')"
          "()" "[]" "''s3cret''" "ErrorObject ''Unexpected token''"]
    POST_status_order
      [of "Some ''s3cret''"
          "\<lambda>req sec wait. Parsed (Some False)
             (Some \<lparr>payload_type = Some ''blogPost'', payload_id = None, payload_slug = None\<rparr>)"
          "()" "[]" "''s3cret''" _ "Some False"
          "Some \<lparr>payload_type = Some ''blogPost'', payload_id = None, payload_slug = None\<rparr>"]
    POST_status_order
      [of "Some ''s3cret''"
          "\<lambda>req sec wait. Parsed (Some True)
             (Some \<lparr>payload_type = None, payload_id = Some ''doc1'', payload_slug = None\<rparr>)"
          "()" "[]" "''s3cret''" _ _
          "Some \<lparr>payload_type = None, payload_id = Some ''doc1'', payload_slug = None\<rparr>"]
    POST_status_order
      [of "Some ''s3cret''"
          "\<lambda>req sec wait. Parsed (Some True)
             (Some \<lparr>payload_type = Some ''homepage'', payload_id = None, payload_slug = None\<rparr>)"
          "()" "[]" "''s3cret''" _ _
          "Some \<lparr>payload_type = Some ''homepage'', payload_id = None, payload_slug = None\<rparr>"
          "''homepage''"]
  by (simp add: truthy_def body_type_def object_prototype_keys_def)

text \<open>
  Claim C3 says that a type found in none of the tables is answered with 200, the type
  name as the only tag and no path.  The type name \<open>constructor\<close> is in none of the
  tables; the read \<open>documentTypeToTags["constructor"]\<close> finds the function inherited from
  \<open>Object.prototype\<close>, the loop over it throws, and the answer is 500 with nothing
  invalidated.  (For the type names outside \<open>Object.prototype\<close> the claim holds:
  \<open>POST_unknown_type_fallback\<close>.)
\<close>

theorem POST_constructor_type:
  "''constructor'' \<notin> fst ` set documentTypeToTags
   \<and> ''constructor'' \<notin> fst ` set documentTypeToPath
   \<and> ''constructor'' \<notin> fst ` set singletonPaths
   \<and> POST (\<lambda>req sec wait. Parsed (Some True)
              (Some \<lparr>payload_type = Some ''constructor'', payload_id = None,
                     payload_slug = None\<rparr>))
        (Some ''s3cret'') () []
     = (\<lparr>status = 500, body = ProcessingError ''tags is not iterable''\<rparr>, [])"
proof -
  have "''constructor'' \<in> set object_prototype_keys"
    by (simp add: object_prototype_keys_def)
  then have "revalidate_document ''constructor'' p [] =
      (Inl (ErrorObject ''tags is not iterable''), [])" for p
    by (rule revalidate_document_inherited)
  then show ?thesis
    by (simp add: POST_def try_block_def handle_parsed_def table_defs)
qed

text \<open>
  Claim C4.  With the secret configured and a valid signature, a notification of type
  \<open>siteSettings\<close>, and likewise one of type \<open>navigation\<close>, is answered with status 200,
  the type name as the only tag and the single path entry \<open>/ (layout)\<close>; the cache call
  behind that entry is \<open>revalidatePath('/', 'layout')\<close>.
\<close>

theorem POST_layout_types:
  assumes "sec \<noteq> []"
    and "parseBody req sec True = Parsed (Some True) (Some p)"
    and "payload_type p = Some t"
    and "t = ''siteSettings'' \<or> t = ''navigation''"
  shows "POST parseBody (Some sec) req cache =
           (\<lparr>status = 200, body = Revalidated t [t] [''/ (layout)'']\<rparr>,
            cache @ [RevalidateTag t, RevalidatePath ''/'' (Some ''layout'')])"
proof -
  note f = layout_type_facts [OF assms(4)]
  have "revalidate_detail t p st = st" for st
    by (simp add: revalidate_detail_def f prop_truthy_def split: option.splits)
  moreover have "revalidate_singleton t st = st" for st
    by (simp add: revalidate_singleton_def f prop_truthy_def)
  moreover have "revalidate_listings t st = st" for st
    by (simp add: revalidate_listings_def f)
  moreover have "revalidate_layout t st = path_step ''/'' (Some ''layout'') ''/ (layout)'' st"
    for st
    using assms(4) by (simp add: revalidate_layout_def)
  ultimately show ?thesis
    using assms(1-3) f(1,2)
    by (simp add: POST_accepted [where t = t and p = p] revalidate_document_other
        path_step_def)
qed

text \<open>The theorem at \<open>{_type: "siteSettings"}\<close> and at a \<open>navigation\<close> notification.\<close>

theorem POST_layout_types_witness:
  "POST (\<lambda>req sec wait. Parsed (Some True)
           (Some \<lparr>payload_type = Some ''siteSettings'', payload_id = None,
                  payload_slug = None\<rparr>))
        (Some ''s3cret'') () []
     = (\<lparr>status = 200,
         body = Revalidated ''siteSettings'' [''siteSettings''] [''/ (layout)'']\<rparr>,
        [RevalidateTag ''siteSettings'', RevalidatePath ''/'' (Some ''layout'')])
   \<and> POST (\<lambda>req sec wait. Parsed (Some True)
           (Some \<lparr>payload_type = Some ''navigation'', payload_id = Some ''navigation'',
                  payload_slug = None\<rparr>))
        (Some ''s3cret'') () []
     = (\<lparr>status = 200,
         body = Revalidated ''navigation'' [''navigation''] [''/ (layout)'']\<rparr>,
        [RevalidateTag ''navigation'', RevalidatePath ''/'' (Some ''layout'')])"
  using POST_layout_types
    [of "''s3cret''"
        "\<lambda>req sec wait. Parsed (Some True)
           (Some \<lparr>payload_type = Some ''siteSettings'', payload_id = None,
                  payload_slug = None\<rparr>)"
        "()" _ "''siteSettings''" "[]"]
    POST_layout_types
    [of "''s3cret''"
        "\<lambda>req sec wait. Parsed (Some True)
           (Some \<lparr>payload_type = Some ''navigation'', payload_id = Some ''navigation'',
                  payload_slug = None\<rparr>)"
        "()" _ "''navigation''" "[]"]
  by simp

text \<open>
  Claim C6 says that two deliveries of a notification with a valid signature and a
  \<open>_type\<close> both get status 200 with the same tags and paths.  For the type name
  \<open>toString\<close> both deliveries get 500 and no tags or paths, and neither invalidates
  anything.  (The two responses agree and the cache calls repeat for every request:
  \<open>POST_replay\<close>.)
\<close>

theorem POST_twice_toString:
  "POST (\<lambda>req sec wait. Parsed (Some True)
           (Some \<lparr>payload_type = Some ''toString'', payload_id = None, payload_slug = None\<rparr>))
        (Some ''s3cret'') () []
     = (\<lparr>status = 500, body = ProcessingError ''tags is not iterable''\<rparr>, [])
   \<and> POST (\<lambda>req sec wait. Parsed (Some True)
           (Some \<lparr>payload_type = Some ''toString'', payload_id = None, payload_slug = None\<rparr>))
        (Some ''s3cret'') ()
        (snd (POST (\<lambda>req sec wait. Parsed (Some True)
                 (Some \<lparr>payload_type = Some ''toString'', payload_id = None,
                        payload_slug = None\<rparr>))
               (Some ''s3cret'') () []))
     = (\<lparr>status = 500, body = ProcessingError ''tags is not iterable''\<rparr>, [])"
proof -
  have "''toString'' \<in> set object_prototype_keys"
    by (simp add: object_prototype_keys_def)
  then have "revalidate_document ''toString'' p [] =
      (Inl (ErrorObject ''tags is not iterable''), [])" for p
    by (rule revalidate_document_inherited)
  then show ?thesis
    by (simp add: POST_def try_block_def handle_parsed_def)
qed

text \<open>
  Claim C10 says that every payload with a valid signature and a \<open>_type\<close> is answered
  with a tags array equal to \<open>[_type]\<close>, of length one.  For the type name \<open>valueOf\<close> the
  answer is 500 and carries no tags array.  (The table has eight entries, each mapping a
  type to the list of its own name, and outside the member names of \<open>Object.prototype\<close>
  the tags are \<open>[_type]\<close>: \<open>documentTypeToTags_shape\<close>, \<open>POST_accepted_tags\<close>.)
\<close>

theorem POST_valueOf_no_tags:
  "status (fst (POST (\<lambda>req sec wait. Parsed (Some True)
                    (Some \<lparr>payload_type = Some ''valueOf'', payload_id = None,
                           payload_slug = None\<rparr>))
                 (Some ''s3cret'') () [])) = 500
   \<and> response_tags (fst (POST (\<lambda>req sec wait. Parsed (Some True)
                    (Some \<lparr>payload_type = Some ''valueOf'', payload_id = None,
                           payload_slug = None\<rparr>))
                 (Some ''s3cret'') () [])) = None"
proof -
  have "''valueOf'' \<in> set object_prototype_keys"
    by (simp add: object_prototype_keys_def)
  then have "revalidate_document ''valueOf'' p [] =
      (Inl (ErrorObject ''tags is not iterable''), [])" for p
    by (rule revalidate_document_inherited)
  then show ?thesis
    by (simp add: POST_def try_block_def handle_parsed_def response_tags_def)
qed


section \<open>Properties of the image helpers\<close>

subsection \<open>Doubles hold the integers below \<open>2^53\<close>\<close>

lemma ilog2_of_int_le:
  assumes "0 < k" and "k < 2 ^ 53"
  shows "ilog2 (of_int k) \<le> 52"
proof -
  have q: "quotient_of (rat_of_int k) = (k, 1)"
    using quotient_of_int [of k] by simp
  have "bitlen k \<le> 53"
    using assms(2) bitlen_le_iff_power [of k 53] by simp
  moreover have "bitlen 1 = 1"
    by (simp add: bitlen_alt_def)
  ultimately show ?thesis
    by (simp add: ilog2_def q Let_def)
qed

lemma round_half_even_of_int: "round_half_even (of_int k) = k"
  by (simp add: round_half_even_def)

lemma round_magnitude_of_int:
  assumes "0 < k" and "k < 2 ^ 53"
  shows "round_magnitude (of_int k) = Some (of_int k)"
proof -
  define p where "p = max (ilog2 (rat_of_int k)) (- 1022) - 52"
  have "p \<le> 0"
    using ilog2_of_int_le [OF assms] by (simp add: p_def)
  then have pw: "pow2 p = 1 / 2 ^ nat (- p)"
    by (cases "p = 0") (simp_all add: pow2_def)
  have "rat_of_int k / pow2 p = of_int (k * 2 ^ nat (- p))"
    by (simp add: pw)
  then have r: "round_half_even (rat_of_int k / pow2 p) = k * 2 ^ nat (- p)"
    by (simp only: round_half_even_of_int)
  have "of_int (k * 2 ^ nat (- p)) * pow2 p = rat_of_int k"
    by (simp add: pw)
  then have v: "of_int (round_half_even (rat_of_int k / pow2 p)) * pow2 p = rat_of_int k"
    by (simp only: r)
  have "rat_of_int k < rat_of_int (2 ^ 53)"
    using assms(2) by (simp only: of_int_less_iff)
  then have "rat_of_int k < 2 ^ 53"
    by simp
  also have "(2::rat) ^ 53 \<le> 2 ^ 1024"
    by (rule power_increasing) simp_all
  finally have "\<not> pow2 1024 \<le> rat_of_int k"
    by (simp add: pow2_def)
  then show ?thesis
    using v by (simp add: round_magnitude_def Let_def flip: p_def)
qed

lemma to_double_of_int:
  assumes "0 \<le> k" and "k < 2 ^ 53"
  shows "to_double False (of_int k) = Num (of_int k)"
proof (cases "k = 0")
  case True
  then show ?thesis by (simp add: to_double_def signed_zero_def)
next
  case False
  with assms have "round_magnitude (of_int k) = Some (of_int k)"
    by (intro round_magnitude_of_int) simp_all
  with False show ?thesis by (simp add: to_double_def)
qed

lemma js_divide_positive:
  assumes "0 \<le> x" and "0 < y"
  shows "js_divide (Num x) (Num y) = to_double False (x / y)"
  using assms
  by (simp add: js_divide_def sign_bit_def is_infinite_def is_zero_def magnitude_def)

subsection \<open>\<open>split\<close> and \<open>Number\<close> on well-formed input\<close>

lemma split_on_not_Nil: "split_on sep s \<noteq> []"
  by (induction s) (auto split: list.splits)

lemma split_on_no_sep: "sep \<notin> set xs \<Longrightarrow> split_on sep xs = [xs]"
  by (induction xs) auto

lemma split_on_append:
  "sep \<notin> set xs \<Longrightarrow> split_on sep (xs @ sep # ys) = xs # split_on sep ys"
  by (induction xs) auto

lemma code_units:
  "code_unit_of CHR ''-'' = 45" "code_unit_of CHR ''x'' = 120" "code_unit_of CHR ''+'' = 43"
  "code_unit_of CHR ''.'' = 46" "code_unit_of CHR ''0'' = 48" "code_unit_of CHR ''X'' = 88"
  "code_unit_of CHR ''o'' = 111" "code_unit_of CHR ''O'' = 79" "code_unit_of CHR ''b'' = 98"
  "code_unit_of CHR ''B'' = 66" "code_unit_of CHR ''e'' = 101" "code_unit_of CHR ''E'' = 69"
  "code_unit_of CHR ''I'' = 73"
  by (simp_all add: code_unit_of_def)

lemma is_digit_10_iff: "is_digit 10 c \<longleftrightarrow> 48 \<le> c \<and> c \<le> 57"
  by (auto simp: is_digit_def digit_value_def)

lemma decimal_digit_facts:
  assumes "is_digit 10 c"
  shows "c \<noteq> 45" "c \<noteq> 120" "c \<noteq> 43" "c \<noteq> 46" "c \<noteq> 73" "\<not> is_space c"
    "c \<noteq> 88" "c \<noteq> 111" "c \<noteq> 79" "c \<noteq> 98" "c \<noteq> 66"
  using assms unfolding is_digit_10_iff is_space_def by auto

lemma digits_value_nonneg: "0 \<le> digits_value 10 ds"
proof -
  have "0 \<le> acc \<Longrightarrow>
      0 \<le> foldl (\<lambda>acc c. acc * 10 + (case digit_value c of None \<Rightarrow> 0 | Some d \<Rightarrow> int d)) acc ds"
    for acc :: int
    by (induction ds arbitrary: acc) (simp_all split: option.splits)
  then show ?thesis by (simp add: digits_value_def)
qed

lemma trim_digits:
  assumes "list_all (is_digit 10) ds"
  shows "trim ds = ds"
proof (cases "ds = []")
  case True
  then show ?thesis by (simp add: trim_def)
next
  case False
  with assms have "\<not> is_space (hd ds)" and "\<not> is_space (last ds)"
    by (simp_all add: list_all_iff decimal_digit_facts)
  then have "dropWhile is_space ds = ds" and "dropWhile is_space (rev ds) = rev ds"
    using False by (simp_all add: dropWhile_eq_self_iff hd_rev)
  then show ?thesis by (simp add: trim_def)
qed

lemma non_decimal_digits:
  assumes "list_all (is_digit 10) ds"
  shows "non_decimal_literal ds = None"
proof (cases ds)
  case Nil
  then show ?thesis by (simp add: non_decimal_literal_def)
next
  case (Cons c0 t)
  show ?thesis
  proof (cases t)
    case Nil
    with Cons show ?thesis by (simp add: non_decimal_literal_def)
  next
    case (Cons c1 u)
    with assms \<open>ds = c0 # t\<close> have "is_digit 10 c1" by simp
    then show ?thesis
      using Cons \<open>ds = c0 # t\<close>
      by (simp add: non_decimal_literal_def code_units decimal_digit_facts)
  qed
qed

lemma unsigned_decimal_digits:
  assumes "list_all (is_digit 10) ds" and "ds \<noteq> []" and "digits_value 10 ds < 2 ^ 53"
  shows "unsigned_decimal ds = Num (of_int (digits_value 10 ds))"
proof -
  from assms have "hd ds \<noteq> 73"
    by (cases ds) (simp_all add: decimal_digit_facts)
  then have inf: "ds \<noteq> utf16 ''Infinity''"
    by (auto simp: utf16_def code_units)
  have tw: "takeWhile (is_digit 10) ds = ds" and dw: "dropWhile (is_digit 10) ds = []"
    using assms(1) by (simp_all add: list_all_iff)
  have "to_double False (of_int (digits_value 10 ds)) = Num (of_int (digits_value 10 ds))"
    using assms(3) digits_value_nonneg by (rule to_double_of_int [rotated])
  then show ?thesis
    using assms(2) inf
    by (simp add: unsigned_decimal_def tw dw exponent_part_def scale10_def Let_def)
qed

lemma Number_js_digits:
  assumes "list_all (is_digit 10) ds" and "ds \<noteq> []" and "digits_value 10 ds < 2 ^ 53"
  shows "Number_js ds = Num (of_int (digits_value 10 ds))"
proof -
  from assms obtain c cs where ds: "ds = c # cs" and c: "is_digit 10 c"
    by (cases ds) auto
  have "decimal_literal ds = unsigned_decimal ds"
    using c by (simp add: ds decimal_literal_def code_units decimal_digit_facts)
  then show ?thesis
    using assms
    by (simp add: Number_js_def trim_digits non_decimal_digits unsigned_decimal_digits)
qed

lemma at_index_simps:
  "at_index (a # b # c # xs) 2 = Some c"
  "at_index [a, b] 0 = Some a" "at_index [a, b] 1 = Some b"
  by (simp_all add: at_index_def)

lemma digits_exclude:
  assumes "list_all (is_digit 10) ds"
  shows "45 \<notin> set ds" and "120 \<notin> set ds"
proof -
  have "\<not> is_digit 10 45" and "\<not> is_digit 10 120"
    by (simp_all add: is_digit_10_iff)
  with assms show "45 \<notin> set ds" and "120 \<notin> set ds"
    by (auto simp: list_all_iff)
qed

lemma well_formed_ref_split:
  assumes "45 \<notin> set ident" and "list_all (is_digit 10) ws" and "list_all (is_digit 10) hs"
  shows "split_on 45 (utf16 ''image-'' @ ident @ utf16 ''-'' @ ws @ utf16 ''x'' @ hs
                        @ utf16 ''-'' @ ext)
           = utf16 ''image'' # ident # (ws @ 120 # hs) # split_on 45 ext"
proof -
  have d: "45 \<notin> set (ws @ 120 # hs)"
    using assms(2,3) by (simp add: digits_exclude)
  have e: "utf16 ''image-'' @ ident @ utf16 ''-'' @ ws @ utf16 ''x'' @ hs @ utf16 ''-'' @ ext
          = utf16 ''image'' @ 45 # (ident @ 45 # ((ws @ 120 # hs) @ 45 # ext))"
    by (simp add: utf16_def code_units)
  have s1: "split_on 45 (utf16 ''image'' @ 45 # zs) = utf16 ''image'' # split_on 45 zs"
    for zs :: js_string
    by (rule split_on_append) (simp add: utf16_def code_unit_of_def)
  have s2: "split_on 45 (ident @ 45 # zs) = ident # split_on 45 zs" for zs
    by (rule split_on_append) (rule assms(1))
  have s3: "split_on 45 ((ws @ 120 # hs) @ 45 # ext) = (ws @ 120 # hs) # split_on 45 ext"
    by (rule split_on_append) (rule d)
  show ?thesis
    by (simp only: e s1 s2 s3)
qed

lemma dimensions_split:
  assumes "list_all (is_digit 10) ws" and "list_all (is_digit 10) hs"
  shows "split_on 120 (ws @ 120 # hs) = [ws, hs]"
proof -
  have "120 \<notin> set ws" and "120 \<notin> set hs"
    using assms by (simp_all add: digits_exclude)
  then show ?thesis
    using split_on_append [of 120 ws hs] by (simp add: split_on_no_sep)
qed

lemma getImageDimensions_well_formed:
  assumes "list_all (is_digit 10) ws" and "ws \<noteq> []"
    and "list_all (is_digit 10) hs" and "hs \<noteq> []"
    and "digits_value 10 ws < 2 ^ 53" and "digits_value 10 hs < 2 ^ 53"
    and "digits_value 10 hs \<noteq> 0" and "code_unit_of CHR ''-'' \<notin> set ident"
  shows "getImageDimensions
           \<lparr>asset = Some \<lparr>ref = Some (utf16 ''image-'' @ ident @ utf16 ''-'' @ ws @ utf16 ''x''
                                        @ hs @ utf16 ''-'' @ ext)\<rparr>\<rparr>
         = \<lparr>width = Num (of_int (digits_value 10 ws)),
            height = Num (of_int (digits_value 10 hs)),
            aspectRatio =
              to_double False (of_int (digits_value 10 ws) / of_int (digits_value 10 hs))\<rparr>"
proof -
  let ?r = "utf16 ''image-'' @ ident @ utf16 ''-'' @ ws @ utf16 ''x'' @ hs @ utf16 ''-'' @ ext"
  let ?W = "digits_value 10 ws" and ?H = "digits_value 10 hs"
  have dash: "45 \<notin> set ident"
    using assms(8) by (simp add: code_units)
  have "split_on 45 ext \<noteq> []" by (rule split_on_not_Nil)
  then obtain e es where "split_on 45 ext = e # es" by (cases "split_on 45 ext") auto
  then have third: "at_index (split_on 45 ?r) 2 = Some (ws @ 120 # hs)"
    by (simp only: well_formed_ref_split [OF dash assms(1,3)] at_index_simps)
  have nw: "Number_js ws = Num (of_int ?W)"
    using assms(1,2,5) by (rule Number_js_digits)
  have nh: "Number_js hs = Num (of_int ?H)"
    using assms(3,4,6) by (rule Number_js_digits)
  have nums: "map Number_js (split_on 120 (ws @ 120 # hs)) = [Num (of_int ?W), Num (of_int ?H)]"
    by (simp add: dimensions_split [OF assms(1,3)] nw nh)
  have hpos: "0 < ?H"
    using assms(7) digits_value_nonneg [of hs] by simp
  have wpos: "0 \<le> ?W"
    by (rule digits_value_nonneg)
  have ratio: "js_divide (Num (of_int ?W)) (Num (of_int ?H)) = to_double False (of_int ?W / of_int ?H)"
    using wpos hpos by (intro js_divide_positive) simp_all
  have truthy_h: "num_truthy (Num (rat_of_int ?H))"
    using hpos by (simp add: num_truthy_def)
  have wz: "or_zero (Some (Num (rat_of_int ?W))) = Num (rat_of_int ?W)"
    by (simp add: or_zero_def num_truthy_def)
  have hz: "or_zero (Some (Num (rat_of_int ?H))) = Num (rat_of_int ?H)"
    by (simp add: or_zero_def num_truthy_def)
  have ne: "(?r = []) = False" and dims_ne: "(ws @ 120 # hs = []) = False"
    by (simp_all add: utf16_def)
  show ?thesis
    unfolding getImageDimensions_def code_units
    by (simp only: image_source.simps asset_reference.simps option.case ne dims_ne if_False
        if_True third nums at_index_simps Let_def truthy_h wz hz ratio)
qed

subsection \<open>The fallbacks\<close>

lemma getImageDimensions_no_ref:
  assumes "asset img = None \<or> (\<exists>a. asset img = Some a \<and> (ref a = None \<or> ref a = Some []))"
  shows "getImageDimensions img = no_dimensions"
  using assms by (auto simp: getImageDimensions_def)

lemma getImageDimensions_short_token:
  assumes "asset img = Some a" and "ref a = Some r"
    and "length (split_on (code_unit_of CHR ''-'') r) < 3
         \<or> split_on (code_unit_of CHR ''-'') r ! 2 = []"
  shows "getImageDimensions img = no_dimensions"
  using assms by (auto simp: getImageDimensions_def at_index_def)

lemma or_zero_not_NaN: "or_zero v \<noteq> NaN"
  by (simp add: or_zero_def num_truthy_def split: option.splits)

lemma or_zero_eq_zero: "or_zero (Some n) = Num 0 \<Longrightarrow> \<not> num_truthy n"
  by (auto simp: or_zero_def num_truthy_def split: if_splits)

lemma getImageDimensions_fallbacks:
  "width (getImageDimensions img) \<noteq> NaN"
  "height (getImageDimensions img) \<noteq> NaN"
  "height (getImageDimensions img) = Num 0 \<Longrightarrow> aspectRatio (getImageDimensions img) = Num 1"
  by (auto simp: getImageDimensions_def no_dimensions_def Let_def or_zero_not_NaN
      dest: or_zero_eq_zero split: option.splits)

text \<open>A reference whose third piece is a width alone keeps the width.\<close>

lemma getImageDimensions_width_only:
  assumes "list_all (is_digit 10) ws" and "ws \<noteq> []" and "digits_value 10 ws < 2 ^ 53"
    and "code_unit_of CHR ''-'' \<notin> set ident"
  shows "getImageDimensions
           \<lparr>asset = Some \<lparr>ref = Some (utf16 ''image-'' @ ident @ utf16 ''-'' @ ws
                                        @ utf16 ''-'' @ ext)\<rparr>\<rparr>
         = \<lparr>width = Num (of_int (digits_value 10 ws)), height = Num 0, aspectRatio = Num 1\<rparr>"
proof -
  let ?r = "utf16 ''image-'' @ ident @ utf16 ''-'' @ ws @ utf16 ''-'' @ ext"
  have dash: "45 \<notin> set ident"
    using assms(4) by (simp add: code_units)
  have e: "?r = utf16 ''image'' @ 45 # (ident @ 45 # (ws @ 45 # ext))"
    by (simp add: utf16_def code_units)
  have s1: "split_on 45 (utf16 ''image'' @ 45 # zs) = utf16 ''image'' # split_on 45 zs"
    for zs :: js_string
    by (rule split_on_append) (simp add: utf16_def code_unit_of_def)
  have s2: "split_on 45 (ident @ 45 # zs) = ident # split_on 45 zs" for zs
    by (rule split_on_append) (rule dash)
  have s3: "split_on 45 (ws @ 45 # ext) = ws # split_on 45 ext"
    by (rule split_on_append) (rule digits_exclude(1) [OF assms(1)])
  have third: "at_index (split_on 45 ?r) 2 = Some ws"
    by (simp only: e s1 s2 s3 at_index_simps)
  have nums: "map Number_js (split_on 120 ws) = [Num (of_int (digits_value 10 ws))]"
    using assms(1-3) by (simp add: split_on_no_sep digits_exclude Number_js_digits)
  have one: "at_index [n] 0 = Some n" "at_index [n] 1 = None" for n :: jsnum
    by (simp_all add: at_index_def)
  have wz: "or_zero (Some (Num (rat_of_int (digits_value 10 ws)))) = Num (rat_of_int (digits_value 10 ws))"
    by (simp add: or_zero_def num_truthy_def)
  have hz: "or_zero None = Num 0"
    by (simp add: or_zero_def)
  have ne: "(?r = []) = False" and ws_ne: "(ws = []) = False"
    using assms(2) by (simp_all add: utf16_def)
  show ?thesis
    unfolding getImageDimensions_def code_units
    by (simp only: image_source.simps asset_reference.simps option.case ne ws_ne if_False
        third nums one Let_def wz hz)
qed

subsection \<open>Claim about \<open>getImageDimensions\<close>\<close>

text \<open>
  Claim C5, as stated, gives every malformed token the result
  \<open>{width: 0, height: 0, aspectRatio: 1}\<close>.  The token \<open>image-abc-800-jpg\<close> has no
  \<open>{W}x{H}\<close> part; its third piece \<open>800\<close> is read as the width, and the result has width
  800.
\<close>

theorem getImageDimensions_partial_token_counterexample:
  "getImageDimensions \<lparr>asset = Some \<lparr>ref = Some (utf16 ''image-abc-800-jpg'')\<rparr>\<rparr>
     = \<lparr>width = Num 800, height = Num 0, aspectRatio = Num 1\<rparr>
   \<and> getImageDimensions \<lparr>asset = Some \<lparr>ref = Some (utf16 ''image-abc-800-jpg'')\<rparr>\<rparr>
       \<noteq> no_dimensions"
proof -
  have d: "list_all (is_digit 10) (utf16 ''800'')" "utf16 ''800'' \<noteq> []"
    "digits_value 10 (utf16 ''800'') = 800" "code_unit_of CHR ''-'' \<notin> set (utf16 ''abc'')"
    by (simp_all add: utf16_def code_unit_of_def is_digit_10_iff digits_value_def
        digit_value_def)
  have u: "utf16 ''image-'' @ utf16 ''abc'' @ utf16 ''-'' @ utf16 ''800'' @ utf16 ''-''
             @ utf16 ''jpg'' = utf16 ''image-abc-800-jpg''"
    by (simp add: utf16_def)
  have "getImageDimensions \<lparr>asset = Some \<lparr>ref = Some (utf16 ''image-abc-800-jpg'')\<rparr>\<rparr>
     = \<lparr>width = Num 800, height = Num 0, aspectRatio = Num 1\<rparr>"
    using getImageDimensions_width_only
      [of "utf16 ''800''" "utf16 ''abc''" "utf16 ''jpg''"] d
    by (simp add: u)
  then show ?thesis
    by (simp add: no_dimensions_def)
qed

text \<open>
  Claim C5, amended.  For a reference \<open>image-{id}-{W}x{H}-{ext}\<close> whose \<open>id\<close> has no dash
  and whose \<open>W\<close> and \<open>H\<close> are non-empty strings of decimal digits, below \<open>2^53\<close> (where a
  double holds every integer exactly) and with \<open>H\<close> not zero, the result is
  \<open>{width: W, height: H, aspectRatio: W/H}\<close>, the ratio being the double that the
  division \<open>W / H\<close> gives: the one nearest to the exact quotient.  For an image without
  asset, without \<open>_ref\<close> or with an empty \<open>_ref\<close>, and for a reference with fewer than three
  dash-separated pieces or an empty third piece, the result is exactly
  \<open>{width: 0, height: 0, aspectRatio: 1}\<close>.  For every argument the function returns
  (it has no error result); width and height are never \<open>NaN\<close>, since each falls back to 0
  on its own, and whenever the height is 0 the aspect ratio is 1.
\<close>

theorem getImageDimensions_cases:
  "(list_all (is_digit 10) ws \<and> ws \<noteq> [] \<and> list_all (is_digit 10) hs \<and> hs \<noteq> []
      \<and> digits_value 10 ws < 2 ^ 53 \<and> digits_value 10 hs < 2 ^ 53
      \<and> digits_value 10 hs \<noteq> 0 \<and> code_unit_of CHR ''-'' \<notin> set ident \<longrightarrow>
    getImageDimensions
      \<lparr>asset = Some \<lparr>ref = Some (utf16 ''image-'' @ ident @ utf16 ''-'' @ ws @ utf16 ''x''
                                   @ hs @ utf16 ''-'' @ ext)\<rparr>\<rparr>
    = \<lparr>width = Num (of_int (digits_value 10 ws)),
       height = Num (of_int (digits_value 10 hs)),
       aspectRatio =
         to_double False (of_int (digits_value 10 ws) / of_int (digits_value 10 hs))\<rparr>)
   \<and> (asset img = None \<or> (\<exists>a. asset img = Some a \<and> (ref a = None \<or> ref a = Some [])) \<longrightarrow>
        getImageDimensions img = no_dimensions)
   \<and> (asset img = Some a \<and> ref a = Some r
        \<and> (length (split_on (code_unit_of CHR ''-'') r) < 3
            \<or> split_on (code_unit_of CHR ''-'') r ! 2 = []) \<longrightarrow>
        getImageDimensions img = no_dimensions)
   \<and> width (getImageDimensions img) \<noteq> NaN
   \<and> height (getImageDimensions img) \<noteq> NaN
   \<and> (height (getImageDimensions img) = Num 0 \<longrightarrow>
        aspectRatio (getImageDimensions img) = Num 1)"
  using getImageDimensions_well_formed [of ws hs ident ext]
    getImageDimensions_no_ref [of img] getImageDimensions_short_token [of img a r]
    getImageDimensions_fallbacks [of img]
  by blast

text \<open>
  The theorem at \<open>image-abc-800x600-jpg\<close>, whose ratio is the double
  \<open>1.3333333333333333\<close>, at an image without asset, at the reference \<open>image-abc\<close> and at
  \<open>image-abc-800-jpg\<close>, whose height falls back to 0.
\<close>

theorem getImageDimensions_cases_witness:
  "getImageDimensions \<lparr>asset = Some \<lparr>ref = Some (utf16 ''image-abc-800x600-jpg'')\<rparr>\<rparr>
     = \<lparr>width = Num 800, height = Num 600,
        aspectRatio = Num (6004799503160661 / 4503599627370496)\<rparr>
   \<and> getImageDimensions \<lparr>asset = None\<rparr> = no_dimensions
   \<and> getImageDimensions \<lparr>asset = Some \<lparr>ref = Some (utf16 ''image-abc'')\<rparr>\<rparr> = no_dimensions
   \<and> height (getImageDimensions \<lparr>asset = Some \<lparr>ref = Some (utf16 ''image-abc-800-jpg'')\<rparr>\<rparr>)
       = Num 0
   \<and> aspectRatio (getImageDimensions \<lparr>asset = Some \<lparr>ref = Some (utf16 ''image-abc-800-jpg'')\<rparr>\<rparr>)
       = Num 1"
proof -
  have d: "list_all (is_digit 10) (utf16 ''800'')" "list_all (is_digit 10) (utf16 ''600'')"
    "digits_value 10 (utf16 ''800'') = 800" "digits_value 10 (utf16 ''600'') = 600"
    "code_unit_of CHR ''-'' \<notin> set (utf16 ''abc'')"
    "utf16 ''800'' \<noteq> []" "utf16 ''600'' \<noteq> []"
    by (simp_all add: utf16_def code_unit_of_def is_digit_10_iff digits_value_def
        digit_value_def)
  have w: "utf16 ''image-'' @ utf16 ''abc'' @ utf16 ''-'' @ utf16 ''800'' @ utf16 ''-''
             @ utf16 ''jpg'' = utf16 ''image-abc-800-jpg''"
    by (simp add: utf16_def)
  have h: "height (getImageDimensions \<lparr>asset = Some \<lparr>ref = Some (utf16 ''image-abc-800-jpg'')\<rparr>\<rparr>)
      = Num 0"
    using getImageDimensions_width_only
      [of "utf16 ''800''" "utf16 ''abc''" "utf16 ''jpg''"] d
    by (simp add: w)
  have q: "to_double False (4 / 3) = Num (6004799503160661 / 4503599627370496)"
    by code_simp
  have s: "length (split_on (code_unit_of CHR ''-'') (utf16 ''image-abc'')) < 3"
    by (simp add: utf16_def code_unit_of_def)
  have u: "utf16 ''image-'' @ utf16 ''abc'' @ utf16 ''-'' @ utf16 ''800'' @ utf16 ''x''
             @ utf16 ''600'' @ utf16 ''-'' @ utf16 ''jpg'' = utf16 ''image-abc-800x600-jpg''"
    by (simp add: utf16_def)
  show ?thesis
    using h d s
      getImageDimensions_cases
        [of "utf16 ''800''" "utf16 ''600''" "utf16 ''abc''" "utf16 ''jpg''" "\<lparr>asset = None\<rparr>"]
      getImageDimensions_cases
        [of _ _ _ _ "\<lparr>asset = Some \<lparr>ref = Some (utf16 ''image-abc'')\<rparr>\<rparr>"
            "\<lparr>ref = Some (utf16 ''image-abc'')\<rparr>" "utf16 ''image-abc''"]
      getImageDimensions_cases
        [of _ _ _ _ "\<lparr>asset = Some \<lparr>ref = Some (utf16 ''image-abc-800-jpg'')\<rparr>\<rparr>"]
    by (simp add: u q)
qed


section \<open>Properties of the fetch wrapper\<close>

text \<open>
  Claim C7.  For every query, parameter mapping, freshness window and tag list,
  \<open>sanityFetch\<close> makes exactly one call on the client, with the given query and parameter
  mapping and with the cache options built from the window and the tags, and returns what
  that call returns, leaving the world as that call leaves it.  A window left out is 60.
  A rejection from the client is the rejection of \<open>sanityFetch\<close>, unchanged: nothing is
  retried, timed out or replaced.
\<close>

theorem sanityFetch_single_call:
  "sanityFetch (recording client)
       \<lparr>query = q, params = Some p, arg_revalidate = r, arg_tags = Some ts\<rparr> (journal, world)
     = (fst (client q p
               \<lparr>next_revalidate = (case r of None \<Rightarrow> Seconds (Num 60) | Some x \<Rightarrow> x),
                next_tags = ts\<rparr> world),
        (journal @ [(q, p, \<lparr>next_revalidate = (case r of None \<Rightarrow> Seconds (Num 60) | Some x \<Rightarrow> x),
                        next_tags = ts\<rparr>)],
         snd (client q p
               \<lparr>next_revalidate = (case r of None \<Rightarrow> Seconds (Num 60) | Some x \<Rightarrow> x),
                next_tags = ts\<rparr> world)))
   \<and> sanityFetch client
       \<lparr>query = q, params = Some p, arg_revalidate = None, arg_tags = Some ts\<rparr> world
     = client q p \<lparr>next_revalidate = Seconds (Num 60), next_tags = ts\<rparr> world
   \<and> (fst (client q p
               \<lparr>next_revalidate = (case r of None \<Rightarrow> Seconds (Num 60) | Some x \<Rightarrow> x),
                next_tags = ts\<rparr> world) = Inl err \<longrightarrow>
        fst (sanityFetch client
               \<lparr>query = q, params = Some p, arg_revalidate = r, arg_tags = Some ts\<rparr> world)
          = Inl err)"
  by (simp add: sanityFetch_def recording_def split: prod.splits)


text \<open>The theorem at a client that always rejects with a network error.\<close>

theorem sanityFetch_single_call_witness:
  "fst (sanityFetch (\<lambda>q p opts (w::nat). (Inl (ErrorObject ''Network error''), Suc w))
          \<lparr>query = ''*[_type == \"homepage\"][0]'', params = Some (Map.empty :: string \<rightharpoonup> string),
           arg_revalidate = None, arg_tags = Some [''homepage'']\<rparr> 0)
     = (Inl (ErrorObject ''Network error'') :: thrown + unit)"
  using sanityFetch_single_call
    [of "\<lambda>q p opts (w::nat). (Inl (ErrorObject ''Network error'') :: thrown + unit, Suc w)"
        "''*[_type == \"homepage\"][0]''" "Map.empty :: string \<rightharpoonup> string" None "[''homepage'']"
        "[]" 0 "ErrorObject ''Network error''"]
  by simp


section \<open>Properties of the content queries\<close>

subsection \<open>Filtering, ordering and slicing\<close>

lemma projects_of_iff: "p \<in> set (projects_of ds) \<longleftrightarrow> Project p \<in> set ds"
  by (induction ds) (auto simp: projects_of_def List.map_filter_simps split: document.splits)

lemma blog_posts_of_iff: "p \<in> set (blog_posts_of ds) \<longleftrightarrow> BlogPost p \<in> set ds"
  by (induction ds) (auto simp: blog_posts_of_def List.map_filter_simps split: document.splits)

lemma first_of_None: "first_of xs = None \<longleftrightarrow> xs = []"
  by (cases xs) (simp_all add: first_of_def)

lemma order_asc_sorted: "sorted_wrt (\<lambda>a b. f a \<le> f b) (order_asc f xs)"
  using sorted_sort_key [of f xs] by (simp add: order_asc_def sorted_map)

lemma order_desc_sorted: "sorted_wrt (\<lambda>a b. f b \<le> f a) (order_desc f xs)"
  using sorted_sort_key [of f "rev xs"] by (simp add: order_desc_def sorted_map sorted_wrt_rev)

lemma order_asc_set: "set (order_asc f xs) = set xs"
  by (simp add: order_asc_def)

lemma order_desc_set: "set (order_desc f xs) = set xs"
  by (simp add: order_desc_def)

lemma order_desc_mset: "mset (order_desc f xs) = mset xs"
  by (simp add: order_desc_def)

lemma order_desc_length: "length (order_desc f xs) = length xs"
  by (simp add: order_desc_def)

lemma first_of_order_asc:
  assumes "first_of (order_asc f xs) = Some x"
  shows "x \<in> set xs \<and> (\<forall>y \<in> set xs. f x \<le> f y)"
proof -
  from assms obtain rest where r: "order_asc f xs = x # rest"
    by (auto simp: first_of_def split: list.splits)
  have "set (x # rest) = set xs" by (simp flip: r add: order_asc_set)
  moreover have "\<forall>y \<in> set rest. f x \<le> f y"
    using order_asc_sorted [of f xs] by (simp add: r)
  ultimately show ?thesis by auto
qed

lemma first_of_order_desc:
  assumes "first_of (order_desc f xs) = Some x"
  shows "x \<in> set xs \<and> (\<forall>y \<in> set xs. f y \<le> f x)"
proof -
  from assms obtain rest where r: "order_desc f xs = x # rest"
    by (auto simp: first_of_def split: list.splits)
  have "set (x # rest) = set xs" by (simp flip: r add: order_desc_set)
  moreover have "\<forall>y \<in> set rest. f y \<le> f x"
    using order_desc_sorted [of f xs] by (simp add: r)
  ultimately show ?thesis by auto
qed

lemma first_of_order_asc_None: "first_of (order_asc f xs) = None \<longleftrightarrow> xs = []"
  by (simp add: first_of_None order_asc_def flip: length_0_conv)

lemma first_of_order_desc_None: "first_of (order_desc f xs) = None \<longleftrightarrow> xs = []"
  by (simp add: first_of_None order_desc_def flip: length_0_conv)

lemma slice_length: "length (slice start end xs) = min end (length xs) - start"
  by (simp add: slice_def)

lemma slice_nth:
  "slice start end xs = map (\<lambda>i. xs ! i) [start ..< min end (length xs)]"
proof (rule nth_equalityI)
  show "length (slice start end xs) = length (map (\<lambda>i. xs ! i) [start ..< min end (length xs)])"
    by (simp add: slice_length)
next
  fix i
  assume "i < length (slice start end xs)"
  then have "i < min end (length xs) - start" by (simp add: slice_length)
  then have a: "i < end - start" and b: "start + i < length xs"
    and c: "i < length [start ..< min end (length xs)]"
    and d: "start + i < min end (length xs)"
    by (simp_all add: less_diff_conv add.commute)
  have "slice start end xs ! i = xs ! (start + i)"
    using a b by (simp add: slice_def)
  also have "\<dots> = map (\<lambda>i. xs ! i) [start ..< min end (length xs)] ! i"
    using c d by (simp only: nth_map nth_upt)
  finally show "slice start end xs ! i = map (\<lambda>i. xs ! i) [start ..< min end (length xs)] ! i" .
qed

lemma slice_sorted: "sorted_wrt R xs \<Longrightarrow> sorted_wrt R (slice start end xs)"
  by (simp add: slice_def)

lemma same_slug_same_project:
  assumes "distinct (map project_slug (projects_of ds))"
    and "Project p \<in> set ds" and "Project q \<in> set ds"
    and "project_slug q = project_slug p"
  shows "q = p"
proof -
  from assms(1) have "inj_on project_slug (set (projects_of ds))"
    by (simp add: distinct_map)
  with assms(2-4) show ?thesis
    by (auto simp: projects_of_iff dest: inj_onD)
qed

lemma previous_project_None:
  "previous_project ds d = None \<longleftrightarrow> (\<forall>q. Project q \<in> set ds \<longrightarrow> \<not> date_after d q)"
  by (auto simp: previous_project_def first_of_order_asc_None filter_empty_conv projects_of_iff)

lemma previous_project_Some:
  assumes "previous_project ds d = Some r"
  shows "Project r \<in> set ds \<and> date_after d r
       \<and> (\<forall>q. Project q \<in> set ds \<and> date_after d q \<longrightarrow> project_date r \<le> project_date q)"
  using first_of_order_asc [OF assms [unfolded previous_project_def]]
  by (auto simp: projects_of_iff)

lemma next_project_None:
  "next_project ds d s = None \<longleftrightarrow>
     (\<forall>q. Project q \<in> set ds \<and> date_before d q \<longrightarrow> project_slug q = s)"
  by (auto simp: next_project_def first_of_order_desc_None filter_empty_conv projects_of_iff)

lemma next_project_Some:
  assumes "next_project ds d s = Some r"
  shows "Project r \<in> set ds \<and> date_before d r \<and> project_slug r \<noteq> s
       \<and> (\<forall>q. Project q \<in> set ds \<and> date_before d q \<and> project_slug q \<noteq> s
              \<longrightarrow> project_date q \<le> project_date r)"
  using first_of_order_desc [OF assms [unfolded next_project_def]]
  by (auto simp: projects_of_iff)


subsection \<open>Claims about the queries\<close>

text \<open>
  When the slugs of the projects are unique and \<open>(d, s)\<close> are the date and the slug of a
  project of the dataset, both branches stay clear of the slug \<open>s\<close>: \<open>"previous"\<close> is a
  project with the smallest date greater than \<open>d\<close>, \<open>"next"\<close> one with the largest date less
  than \<open>d\<close>, each \<open>null\<close> exactly when there is none.  In the \<open>"previous"\<close> branch this is
  owed to the dates alone.
\<close>

lemma adjacentProjectsQuery_unique_slugs:
  assumes "distinct (map project_slug (projects_of ds))"
    and "Project p \<in> set ds" and "project_date p = Some d" and "project_slug p = s"
  shows "adjacent_previous (adjacentProjectsQuery ds d s)
           = map_option project_item (previous_project ds d)
       \<and> adjacent_next (adjacentProjectsQuery ds d s)
           = map_option project_item (next_project ds d s)
       \<and> (case previous_project ds d of
            None \<Rightarrow> \<forall>q. Project q \<in> set ds \<longrightarrow> \<not> date_after d q
          | Some r \<Rightarrow>
              Project r \<in> set ds \<and> project_slug r \<noteq> s \<and> date_after d r
              \<and> (\<forall>q. Project q \<in> set ds \<and> date_after d q \<longrightarrow>
                     project_date r \<le> project_date q))
       \<and> (case next_project ds d s of
            None \<Rightarrow> \<forall>q. Project q \<in> set ds \<longrightarrow> \<not> date_before d q
          | Some r \<Rightarrow>
              Project r \<in> set ds \<and> project_slug r \<noteq> s \<and> date_before d r
              \<and> (\<forall>q. Project q \<in> set ds \<and> date_before d q \<longrightarrow>
                     project_date q \<le> project_date r))"
proof -
  have own: "\<not> date_after d p" "\<not> date_before d p"
    using assms(3) by (simp_all add: date_after_def date_before_def)
  have other: "project_slug q \<noteq> s"
    if "Project q \<in> set ds" and "date_after d q \<or> date_before d q" for q
  proof
    assume "project_slug q = s"
    with assms(1,2,4) that(1) have "q = p"
      by (intro same_slug_same_project [of ds p q]) simp_all
    with that(2) own show False by simp
  qed
  have prev: "case previous_project ds d of
            None \<Rightarrow> \<forall>q. Project q \<in> set ds \<longrightarrow> \<not> date_after d q
          | Some r \<Rightarrow>
              Project r \<in> set ds \<and> project_slug r \<noteq> s \<and> date_after d r
              \<and> (\<forall>q. Project q \<in> set ds \<and> date_after d q \<longrightarrow>
                     project_date r \<le> project_date q)"
  proof (cases "previous_project ds d")
    case None
    then have "\<forall>q. Project q \<in> set ds \<longrightarrow> \<not> date_after d q"
      by (simp only: previous_project_None)
    with None show ?thesis by simp
  next
    case (Some r)
    from previous_project_Some [OF Some] other [of r] Some show ?thesis by simp
  qed
  have nxt: "case next_project ds d s of
            None \<Rightarrow> \<forall>q. Project q \<in> set ds \<longrightarrow> \<not> date_before d q
          | Some r \<Rightarrow>
              Project r \<in> set ds \<and> project_slug r \<noteq> s \<and> date_before d r
              \<and> (\<forall>q. Project q \<in> set ds \<and> date_before d q \<longrightarrow>
                     project_date q \<le> project_date r)"
  proof (cases "next_project ds d s")
    case None
    then have "\<forall>q. Project q \<in> set ds \<and> date_before d q \<longrightarrow> project_slug q = s"
      by (simp only: next_project_None)
    with other have "\<forall>q. Project q \<in> set ds \<longrightarrow> \<not> date_before d q" by blast
    with None show ?thesis by simp
  next
    case (Some r)
    from next_project_Some [OF Some] other Some show ?thesis by auto
  qed
  from prev nxt show ?thesis by (simp add: adjacentProjectsQuery_def)
qed



text \<open>
  Claim C9.  For \<open>start < end\<close> the listing query returns at most \<open>end - start\<close> posts, in
  descending order of \<open>publishedAt\<close>: the entries at the zero-based positions \<open>start\<close> up to
  and excluding \<open>end\<close> of the blog posts of the dataset sorted by \<open>publishedAt\<close>
  descending, cut at the number of posts.  The result has \<open>min end n - start\<close> entries for
  \<open>n\<close> posts, so it is shorter when \<open>end\<close> exceeds \<open>n\<close> and empty when \<open>start\<close> does; the
  query has no error result.
\<close>

theorem blogPostsQuery_page:
  assumes "start < end"
  shows "length (blogPostsQuery ds start end) \<le> end - start
       \<and> length (blogPostsQuery ds start end) = min end (length (blog_posts_of ds)) - start
       \<and> sorted_wrt (\<lambda>a b. publishedAt b \<le> publishedAt a) (blogPostsQuery ds start end)
       \<and> blogPostsQuery ds start end =
           map (\<lambda>i. order_desc publishedAt (blog_posts_of ds) ! i)
             [start ..< min end (length (blog_posts_of ds))]
       \<and> sorted_wrt (\<lambda>a b. publishedAt b \<le> publishedAt a)
           (order_desc publishedAt (blog_posts_of ds))
       \<and> mset (order_desc publishedAt (blog_posts_of ds)) = mset (blog_posts_of ds)
       \<and> (length (blog_posts_of ds) \<le> start \<longrightarrow> blogPostsQuery ds start end = [])"
proof -
  let ?sorted = "order_desc publishedAt (blog_posts_of ds)"
  have len: "length (blogPostsQuery ds start end) = min end (length (blog_posts_of ds)) - start"
    by (simp add: blogPostsQuery_def slice_length order_desc_length)
  have nth: "blogPostsQuery ds start end =
      map (\<lambda>i. ?sorted ! i) [start ..< min end (length (blog_posts_of ds))]"
    using slice_nth [of start "end" ?sorted]
    by (simp add: blogPostsQuery_def order_desc_length)
  have srt: "sorted_wrt (\<lambda>a b. publishedAt b \<le> publishedAt a) (blogPostsQuery ds start end)"
    unfolding blogPostsQuery_def by (rule slice_sorted) (rule order_desc_sorted)
  from len have "length (blogPostsQuery ds start end) \<le> end - start" by arith
  moreover from len have "length (blog_posts_of ds) \<le> start \<longrightarrow> blogPostsQuery ds start end = []"
    by auto
  ultimately show ?thesis
    using len nth srt order_desc_sorted [of publishedAt "blog_posts_of ds"]
    by (simp add: order_desc_mset)
qed

text \<open>The theorem on three posts and another document, for the first page of two.\<close>

theorem blogPostsQuery_page_witness:
  "(0::nat) < 2
   \<and> blogPostsQuery
       [BlogPost \<lparr>post_id = ''b1'', post_title = ''First'', post_slug = ''first'',
                  post_excerpt = None, publishedAt = ''2024-01-10T09:00:00Z'',
                  post_cover = None, post_tags = None\<rparr>,
        (OtherDocument ''homepage'' :: (string, string, unit) document),
        BlogPost \<lparr>post_id = ''b3'', post_title = ''Third'', post_slug = ''third'',
                  post_excerpt = None, publishedAt = ''2024-05-02T09:00:00Z'',
                  post_cover = None, post_tags = Some [''style'']\<rparr>,
        BlogPost \<lparr>post_id = ''b2'', post_title = ''Second'', post_slug = ''second'',
                  post_excerpt = Some ''...'', publishedAt = ''2024-02-20T09:00:00Z'',
                  post_cover = None, post_tags = None\<rparr>]
       0 2
     = [\<lparr>post_id = ''b3'', post_title = ''Third'', post_slug = ''third'',
         post_excerpt = None, publishedAt = ''2024-05-02T09:00:00Z'',
         post_cover = None, post_tags = Some [''style'']\<rparr>,
        \<lparr>post_id = ''b2'', post_title = ''Second'', post_slug = ''second'',
         post_excerpt = Some ''...'', publishedAt = ''2024-02-20T09:00:00Z'',
         post_cover = None, post_tags = None\<rparr>]
   \<and> length (blogPostsQuery
       [BlogPost \<lparr>post_id = ''b1'', post_title = ''First'', post_slug = ''first'',
                  post_excerpt = None, publishedAt = ''2024-01-10T09:00:00Z'',
                  post_cover = None, post_tags = None\<rparr>,
        (OtherDocument ''homepage'' :: (string, string, unit) document),
        BlogPost \<lparr>post_id = ''b3'', post_title = ''Third'', post_slug = ''third'',
                  post_excerpt = None, publishedAt = ''2024-05-02T09:00:00Z'',
                  post_cover = None, post_tags = Some [''style'']\<rparr>,
        BlogPost \<lparr>post_id = ''b2'', post_title = ''Second'', post_slug = ''second'',
                  post_excerpt = Some ''...'', publishedAt = ''2024-02-20T09:00:00Z'',
                  post_cover = None, post_tags = None\<rparr>]
       0 2) \<le> 2 - 0"
proof -
  let ?ds = "[BlogPost \<lparr>post_id = ''b1'', post_title = ''First'', post_slug = ''first'',
                  post_excerpt = None, publishedAt = ''2024-01-10T09:00:00Z'',
                  post_cover = None, post_tags = None\<rparr>,
        (OtherDocument ''homepage'' :: (string, string, unit) document),
        BlogPost \<lparr>post_id = ''b3'', post_title = ''Third'', post_slug = ''third'',
                  post_excerpt = None, publishedAt = ''2024-05-02T09:00:00Z'',
                  post_cover = None, post_tags = Some [''style'']\<rparr>,
        BlogPost \<lparr>post_id = ''b2'', post_title = ''Second'', post_slug = ''second'',
                  post_excerpt = Some ''...'', publishedAt = ''2024-02-20T09:00:00Z'',
                  post_cover = None, post_tags = None\<rparr>]"
  have page: "blogPostsQuery ?ds 0 2
     = [\<lparr>post_id = ''b3'', post_title = ''Third'', post_slug = ''third'',
         post_excerpt = None, publishedAt = ''2024-05-02T09:00:00Z'',
         post_cover = None, post_tags = Some [''style'']\<rparr>,
        \<lparr>post_id = ''b2'', post_title = ''Second'', post_slug = ''second'',
         post_excerpt = Some ''...'', publishedAt = ''2024-02-20T09:00:00Z'',
         post_cover = None, post_tags = None\<rparr>]"
    by code_simp
  have hyp: "(0::nat) < 2" by simp
  have len: "length (blogPostsQuery ?ds 0 2) \<le> 2 - 0"
    using blogPostsQuery_page [OF hyp, of ?ds] by (rule conjunct1)
  show ?thesis
    by (intro conjI hyp page len)
qed

end
